theory Spec2Isabelle
  imports Main
begin

section \<open>The HTTP interceptor chain: data model\<close>

text \<open>
  The development covers the two interceptor handlers of the HTTP package:
  the stream handler of \<^verbatim>\<open>http/rxjs-interop/src/interceptor.ts\<close>, which folds the
  interceptor entries into one chained function over observables, and the single-shot
  handler of \<^verbatim>\<open>http/src/interceptor.ts\<close>, which walks the entry list with an index
  cursor and reports events through an \<^verbatim>\<open>onEvent\<close> callback; and \<^verbatim>\<open>Http.request\<close>
  of \<^verbatim>\<open>http/src/http.ts\<close>.
\<close>

subsection \<open>Events\<close>

text \<open>
  \<^verbatim>\<open>HttpEvent\<close> is the union exported by \<^verbatim>\<open>public_api.ts\<close>: \<^verbatim>\<open>HttpSentEvent\<close>,
  \<^verbatim>\<open>HttpHeaderResponse\<close>, \<^verbatim>\<open>HttpResponse\<close>, the two progress events and
  \<^verbatim>\<open>HttpUserEvent\<close>. The payload type \<open>'b\<close> is left open.
\<close>

datatype 'b HttpEvent =
    HttpSentEvent
  | HttpHeaderResponse
  | HttpUploadProgressEvent nat
  | HttpDownloadProgressEvent nat
  | HttpResponse 'b
  | HttpUserEvent 'b

text \<open>\<^verbatim>\<open>event instanceof HttpResponse\<close>\<close>

fun instanceof_HttpResponse :: "'b HttpEvent \<Rightarrow> bool" where
  "instanceof_HttpResponse (HttpResponse _) = True"
| "instanceof_HttpResponse _ = False"

text \<open>
  Errors: what a promise rejects with, or what an observable fails with. \<open>NestingBound\<close>
  is not a JavaScript error: it is the result of a model function that has used up its
  bound on nested calls.
\<close>

datatype js_error =
    TypeError string
  | HttpErrorResponse nat
  | Thrown string
  | NestingBound

subsection \<open>Interceptor entries are objects: references and the injector\<close>

text \<open>
  A registration list is a JavaScript array of function objects. \<^verbatim>\<open>new Set\<close> compares
  its members by object identity, so an entry is a reference \<open>ref\<close>, and the behaviour of
  the object behind a reference is looked up where the handler dispatches it.
\<close>

type_synonym ref = nat

text \<open>
  The two multi-provided tokens read by both handlers.
  \<^verbatim>\<open>injector.get(HTTP_ROOT_INTERCEPTOR_FNS, [])\<close> has a default, so the root token may be
  absent (\<open>None\<close>); \<^verbatim>\<open>REQUESTS_CONTRIBUTE_TO_STABILITY\<close> is the boolean token declared in
  \<^verbatim>\<open>http/src/interceptor.ts\<close>.
\<close>

record EnvironmentInjector =
  HTTP_INTERCEPTOR_FNS :: "ref list"
  HTTP_ROOT_INTERCEPTOR_FNS :: "ref list option"
  REQUESTS_CONTRIBUTE_TO_STABILITY :: bool

definition get_or_default :: "'a option \<Rightarrow> 'a \<Rightarrow> 'a" where
  "get_or_default provided notFoundValue =
     (case provided of None \<Rightarrow> notFoundValue | Some v \<Rightarrow> v)"

subsection \<open>De-duplication: \<^verbatim>\<open>Array.from(new Set([...a, ...b]))\<close>\<close>

text \<open>
  A JavaScript \<^verbatim>\<open>Set\<close> keeps its members in insertion order, and adding a member that
  is already there changes nothing. The set is the list of its members in that order.
\<close>

definition Set_add :: "'a list \<Rightarrow> 'a \<Rightarrow> 'a list" where
  "Set_add s v = (if v \<in> set s then s else s @ [v])"

definition new_Set :: "'a list \<Rightarrow> 'a list" where
  "new_Set iterable = foldl Set_add [] iterable"

definition Array_from :: "'a list \<Rightarrow> 'a list" where
  "Array_from s = s"

text \<open>
  The expression both handlers start with:
  \<^verbatim>\<open>Array.from(new Set([...injector.get(HTTP_INTERCEPTOR_FNS),
     ...injector.get(HTTP_ROOT_INTERCEPTOR_FNS, [])]))\<close>
\<close>

definition dedupedInterceptorFns :: "EnvironmentInjector \<Rightarrow> ref list" where
  "dedupedInterceptorFns injector =
     Array_from (new_Set (HTTP_INTERCEPTOR_FNS injector
                          @ get_or_default (HTTP_ROOT_INTERCEPTOR_FNS injector) []))"

section \<open>The stream handler (\<^verbatim>\<open>http/rxjs-interop/src/interceptor.ts\<close>)\<close>

subsection \<open>Observables and subscribers of RxJS\<close>

text \<open>
  RxJS is an external library. An observable is represented by what one subscription to
  it delivers: the events in order, the way the stream ends by itself, and the callbacks
  that \<^verbatim>\<open>finalize\<close> has attached to it. The callbacks act on a state \<open>'s\<close>.
\<close>

datatype ending = Completed | Errored js_error | Unterminated

record ('e, 's) Observable =
  emitted :: "'e list"
  ending :: ending
  finalizers :: "('s \<Rightarrow> 's) list"

text \<open>
  The subscriber handed to the function of \<^verbatim>\<open>new Observable(subscriber => ...)\<close>:
  \<^verbatim>\<open>next\<close> delivers a value unless the subscriber is closed, \<^verbatim>\<open>complete\<close> closes it.
  The function given to \<^verbatim>\<open>new Observable\<close> is a function on the subscriber's state; the
  stream is what the subscriber has received when the function is done.
\<close>

record 'e Subscriber =
  received :: "'e list"
  closed :: bool

definition Subscriber_next :: "'e \<Rightarrow> 'e Subscriber \<Rightarrow> 'e Subscriber" where
  "Subscriber_next v subscriber =
     (if closed subscriber then subscriber
      else subscriber\<lparr>received := received subscriber @ [v]\<rparr>)"

definition Subscriber_complete :: "'e Subscriber \<Rightarrow> 'e Subscriber" where
  "Subscriber_complete subscriber =
     (if closed subscriber then subscriber else subscriber\<lparr>closed := True\<rparr>)"

definition new_Observable :: "('e Subscriber \<Rightarrow> 'e Subscriber) \<Rightarrow> ('e, 's) Observable" where
  "new_Observable subscribe =
     (let subscriber = subscribe \<lparr>received = [], closed = False\<rparr>
      in \<lparr>emitted = received subscriber,
          ending = (if closed subscriber then Completed else Unterminated),
          finalizers = []\<rparr>)"

text \<open>
  \<^verbatim>\<open>source.pipe(finalize(callback))\<close>: the same stream, with \<open>callback\<close> run when a
  subscription to it ends.
\<close>

definition finalize :: "('s \<Rightarrow> 's) \<Rightarrow> ('e, 's) Observable \<Rightarrow> ('e, 's) Observable" where
  "finalize callback source = source\<lparr>finalizers := finalizers source @ [callback]\<rparr>"

text \<open>
  One subscription. The consumer either stays subscribed (\<open>None\<close>) or unsubscribes on
  receiving its \<open>k\<close>-th event (\<open>Some k\<close>; with \<open>k = 0\<close>, right after subscribing). The
  subscription ends by completion, by an error or by the consumer's unsubscribing, and
  then the finalizers run; a stream that does not end by itself, with a consumer that
  stays, is still open.
\<close>

datatype subscription_end = Complete | Error js_error | Unsubscribed | StillOpen

definition subscribe ::
  "('e, 's) Observable \<Rightarrow> nat option \<Rightarrow> 's \<Rightarrow> ('e list \<times> subscription_end) \<times> 's" where
  "subscribe source unsubscribeAfter s =
     (let cancelled = (case unsubscribeAfter of None \<Rightarrow> False
                       | Some k \<Rightarrow> k \<le> length (emitted source));
          delivered = (case unsubscribeAfter of None \<Rightarrow> emitted source
                       | Some k \<Rightarrow> take k (emitted source));
          outcome = (if cancelled then Unsubscribed
                     else (case ending source of
                             Completed \<Rightarrow> Complete
                           | Errored err \<Rightarrow> Error err
                           | Unterminated \<Rightarrow> StillOpen))
      in ((delivered, outcome),
          (if outcome = StillOpen then s else fold (\<lambda>callback. callback) (finalizers source) s)))"

subsection \<open>The pending-task registry\<close>

text \<open>
  Modelled from the spec: the pending-task registry (\<^verbatim>\<open>PendingTasksInternal\<close> of the core
  package, which is not among the sources), an "external collaborator exposing
  \<^verbatim>\<open>add() -> token\<close> and \<^verbatim>\<open>remove(token) -> void\<close>". The registry is the history of
  the calls made to it; \<open>next_token\<close> is the token it hands out next.
\<close>

datatype task_call = Added nat | Removed nat

record PendingTasks =
  next_token :: nat
  history :: "task_call list"

definition PendingTasks_add :: "PendingTasks \<Rightarrow> nat \<times> PendingTasks" where
  "PendingTasks_add pendingTasks =
     (next_token pendingTasks,
      pendingTasks\<lparr>next_token := next_token pendingTasks + 1,
                    history := history pendingTasks @ [Added (next_token pendingTasks)]\<rparr>)"

definition PendingTasks_remove :: "nat \<Rightarrow> PendingTasks \<Rightarrow> PendingTasks" where
  "PendingTasks_remove token pendingTasks =
     pendingTasks\<lparr>history := history pendingTasks @ [Removed token]\<rparr>"

subsection \<open>Interceptors and the chained function\<close>

text \<open>
  \<^verbatim>\<open>HttpInterceptorFn\<close> is either a function \<^verbatim>\<open>(req, next) => Observable\<close> or an
  object with an \<^verbatim>\<open>eventInterceptor(request, next, onEvent)\<close> method returning nothing.
  The method reports through \<^verbatim>\<open>onEvent\<close>; the callback it is given changes the
  subscriber, so the method is a function on the subscriber's state.
\<close>

type_synonym ('q, 'b, 's) HttpHandlerFn = "'q \<Rightarrow> ('b HttpEvent, 's) Observable"

datatype ('q, 'b, 's) HttpInterceptorFn =
    ObservableInterceptorFn
      "'q \<Rightarrow> ('q, 'b, 's) HttpHandlerFn \<Rightarrow> ('b HttpEvent, 's) Observable"
  | EventInterceptor
      "'q \<Rightarrow> ('q, 'b, 's) HttpHandlerFn
          \<Rightarrow> ('b HttpEvent \<Rightarrow> 'b HttpEvent Subscriber \<Rightarrow> 'b HttpEvent Subscriber)
          \<Rightarrow> 'b HttpEvent Subscriber \<Rightarrow> 'b HttpEvent Subscriber"

type_synonym ('q, 'b, 's) ChainedInterceptorFn =
  "'q \<Rightarrow> ('q, 'b, 's) HttpHandlerFn \<Rightarrow> ('b HttpEvent, 's) Observable"

definition interceptorChainEndFn :: "('q, 'b, 's) ChainedInterceptorFn" where
  "interceptorChainEndFn req finalHandlerFn = finalHandlerFn req"

text \<open>\<^verbatim>\<open>runInInjectionContext(injector, fn)\<close> calls \<open>fn\<close> and returns its result.\<close>

definition runInInjectionContext :: "EnvironmentInjector \<Rightarrow> (unit \<Rightarrow> 'a) \<Rightarrow> 'a" where
  "runInInjectionContext injector fn = fn ()"

text \<open>
  The callback \<^verbatim>\<open>(event) => { subscriber.next(event);
  if (event instanceof HttpResponse) subscriber.complete(); }\<close> of \<^verbatim>\<open>chainedInterceptorFn\<close>.
\<close>

definition emit :: "'b HttpEvent \<Rightarrow> 'b HttpEvent Subscriber \<Rightarrow> 'b HttpEvent Subscriber" where
  "emit event subscriber =
     (let subscriber1 = Subscriber_next event subscriber
      in if instanceof_HttpResponse event then Subscriber_complete subscriber1
         else subscriber1)"

fun chainedInterceptorFn ::
  "('q, 'b, 's) ChainedInterceptorFn \<Rightarrow> ('q, 'b, 's) HttpInterceptorFn \<Rightarrow> EnvironmentInjector
     \<Rightarrow> ('q, 'b, 's) ChainedInterceptorFn" where
  "chainedInterceptorFn chainTailFn (EventInterceptor eventInterceptor) injector =
     (\<lambda>initialRequest finalHandlerFn.
        new_Observable (\<lambda>subscriber.
          runInInjectionContext injector (\<lambda>_.
            eventInterceptor initialRequest
              (\<lambda>downstreamRequest. chainTailFn downstreamRequest finalHandlerFn)
              emit subscriber)))"
| "chainedInterceptorFn chainTailFn (ObservableInterceptorFn interceptorFn) injector =
     (\<lambda>initialRequest finalHandlerFn.
        runInInjectionContext injector (\<lambda>_.
          interceptorFn initialRequest
            (\<lambda>downstreamRequest. chainTailFn downstreamRequest finalHandlerFn)))"

text \<open>
  \<^verbatim>\<open>array.reduceRight(callbackFn, initialValue)\<close> visits the array from its last element
  to its first, passing the accumulator and the element.
\<close>

definition reduceRight :: "('acc \<Rightarrow> 'a \<Rightarrow> 'acc) \<Rightarrow> 'acc \<Rightarrow> 'a list \<Rightarrow> 'acc" where
  "reduceRight callbackFn initialValue array =
     fold (\<lambda>element accumulator. callbackFn accumulator element) (rev array) initialValue"

text \<open>
  The composed chain of \<^verbatim>\<open>HttpInterceptorHandler.handle\<close>:
  \<^verbatim>\<open>dedupedInterceptorFns.reduceRight((nextSequencedFn, interceptorFn) =>
     chainedInterceptorFn(nextSequencedFn, interceptorFn, this.injector), interceptorChainEndFn)\<close>
\<close>

definition interceptorChain ::
  "EnvironmentInjector \<Rightarrow> ('q, 'b, 's) HttpInterceptorFn list \<Rightarrow> ('q, 'b, 's) ChainedInterceptorFn" where
  "interceptorChain injector fns =
     reduceRight (\<lambda>nextSequencedFn interceptorFn.
                    chainedInterceptorFn nextSequencedFn interceptorFn injector)
       interceptorChainEndFn fns"

subsection \<open>The handler\<close>

text \<open>
  The fields of the class. \<open>chain\<close> starts as \<open>None\<close> (\<^verbatim>\<open>null\<close>); \<open>contributeToStability\<close>
  is read from the injector when the handler is constructed. The registry is an injected
  service shared with the subscriptions, so it is passed to \<open>handle\<close> and returned. The
  warning the constructor prints on a server without the fetch backend touches none of
  the fields and is left out. \<open>heap\<close> gives the function object behind a reference.
\<close>

record ('q, 'b) HttpInterceptorHandler =
  chain :: "('q, 'b, PendingTasks) ChainedInterceptorFn option"
  contributeToStability :: bool
  backend :: "'q \<Rightarrow> ('b HttpEvent, PendingTasks) Observable"
  injector :: EnvironmentInjector

definition new_HttpInterceptorHandler ::
  "('q \<Rightarrow> ('b HttpEvent, PendingTasks) Observable) \<Rightarrow> EnvironmentInjector
     \<Rightarrow> ('q, 'b) HttpInterceptorHandler" where
  "new_HttpInterceptorHandler httpBackend environmentInjector =
     \<lparr>chain = None,
      contributeToStability = REQUESTS_CONTRIBUTE_TO_STABILITY environmentInjector,
      backend = httpBackend,
      injector = environmentInjector\<rparr>"

definition handle ::
  "(ref \<Rightarrow> ('q, 'b, PendingTasks) HttpInterceptorFn) \<Rightarrow> ('q, 'b) HttpInterceptorHandler \<Rightarrow> 'q
     \<Rightarrow> PendingTasks
     \<Rightarrow> ('b HttpEvent, PendingTasks) Observable \<times> ('q, 'b) HttpInterceptorHandler \<times> PendingTasks" where
  "handle heap this initialRequest pendingTasks =
     (let (chain1, this1) =
            (case chain this of
               None \<Rightarrow>
                 (let built = interceptorChain (injector this)
                                (map heap (dedupedInterceptorFns (injector this)))
                  in (built, this\<lparr>chain := Some built\<rparr>))
             | Some cached \<Rightarrow> (cached, this))
      in if contributeToStability this1 then
           (let (taskId, pendingTasks1) = PendingTasks_add pendingTasks
            in (finalize (PendingTasks_remove taskId)
                  (chain1 initialRequest (\<lambda>downstreamRequest. backend this1 downstreamRequest)),
                this1, pendingTasks1))
         else
           (chain1 initialRequest (\<lambda>downstreamRequest. backend this1 downstreamRequest),
            this1, pendingTasks))"

section \<open>The single-shot handler (\<^verbatim>\<open>http/src/interceptor.ts\<close>)\<close>

subsection \<open>Asynchronous functions\<close>

text \<open>
  An \<^verbatim>\<open>async\<close> function that is awaited where it is called is a function on the state
  that returns either the value its promise resolves with or the error it rejects with.
  A synchronous function that may throw is the same. The state is left open: the handler
  uses a world \<open>'w\<close> (all that callbacks, interceptors and the backend can change) and,
  inside \<open>handle\<close>, the world together with the cursor.
\<close>

type_synonym ('a, 's) async = "'s \<Rightarrow> (js_error + 'a) \<times> 's"

definition resolve :: "'a \<Rightarrow> ('a, 's) async" where
  "resolve v s = (Inr v, s)"

definition reject :: "js_error \<Rightarrow> ('a, 's) async" where
  "reject err s = (Inl err, s)"

definition await :: "('a, 's) async \<Rightarrow> ('a \<Rightarrow> ('b, 's) async) \<Rightarrow> ('b, 's) async" where
  "await promise continue s =
     (case promise s of
        (Inl err, s') \<Rightarrow> (Inl err, s')
      | (Inr v, s') \<Rightarrow> continue v s')"

text \<open>
  A callback \<^verbatim>\<open>(event) => void\<close> acts on the world. A parameter that was not passed is
  \<^verbatim>\<open>undefined\<close> (\<open>None\<close>), and calling it throws a \<^verbatim>\<open>TypeError\<close>.
\<close>

type_synonym ('e, 'w) callback = "'e \<Rightarrow> (unit, 'w) async"

definition call :: "('e, 'w) callback option \<Rightarrow> 'e \<Rightarrow> (unit, 'w) async" where
  "call onEvent event =
     (case onEvent of
        None \<Rightarrow> reject (TypeError ''onEvent is not a function'')
      | Some f \<Rightarrow> f event)"

subsection \<open>The backend\<close>

text \<open>
  \<^verbatim>\<open>HttpBackend2\<close> is the abstract class of the package's backend module (in the sources
  it follows \<^verbatim>\<open>rxjs-interop/public_api.ts\<close>), with
  \<^verbatim>\<open>abstract handle(request, onEvent, signal?): Promise<void>\<close>. A call of \<open>handle\<close>
  either throws or returns a promise, which stands for the rest of the work: more calls of
  \<^verbatim>\<open>onEvent\<close>, and then a resolution with nothing or a rejection.
\<close>

type_synonym ('q, 'e, 'w) HttpBackend2_handle =
  "'q \<Rightarrow> ('e, 'w) callback option \<Rightarrow> 'w \<Rightarrow> (js_error + (unit, 'w) async) \<times> 'w"

text \<open>
  Where the call is awaited, or returned from an \<^verbatim>\<open>async\<close> function as in the closure
  \<^verbatim>\<open>next\<close> of the single-shot handler, a throw of \<open>handle\<close> and a rejection of its
  promise are the same failure. That is the backend as the handlers see it.
\<close>

type_synonym ('q, 'e, 'w) HttpBackend2 = "'q \<Rightarrow> ('e, 'w) callback option \<Rightarrow> (unit, 'w) async"

definition awaited :: "('q, 'e, 'w) HttpBackend2_handle \<Rightarrow> ('q, 'e, 'w) HttpBackend2" where
  "awaited handleFn request onEvent w =
     (case handleFn request onEvent w of
        (Inl err, w') \<Rightarrow> (Inl err, w')
      | (Inr promise, w') \<Rightarrow> promise w')"

text \<open>
  A method declared \<^verbatim>\<open>async\<close> never throws: calling it returns the promise of its body.
\<close>

definition async_function :: "('q, 'e, 'w) HttpBackend2 \<Rightarrow> ('q, 'e, 'w) HttpBackend2_handle" where
  "async_function body request onEvent w = (Inr (body request onEvent), w)"

text \<open>
  The backend the package provides, \<^verbatim>\<open>PromiseFetchBackend\<close>:
  \<^verbatim>\<open>async handle(request, onEvent, signal?) {
     const response = await this.doRequest(request, signal); onEvent(response); }\<close>.
  This is the body of the method; \<^verbatim>\<open>doRequest\<close>, which runs \<^verbatim>\<open>fetch\<close> and either returns a
  response or throws an \<^verbatim>\<open>HttpErrorResponse\<close>, is a parameter.
\<close>

definition PromiseFetchBackend_handle ::
  "('q \<Rightarrow> ('e, 'w) async) \<Rightarrow> ('q, 'e, 'w) HttpBackend2" where
  "PromiseFetchBackend_handle doRequest request onEvent =
     await (doRequest request) (\<lambda>response. call onEvent response)"

subsection \<open>The cursor and the interceptors\<close>

text \<open>
  \<^verbatim>\<open>let index = -1\<close> is a variable of one call of \<open>handle\<close>, shared by every call of the
  closure \<^verbatim>\<open>next\<close> made during it.
\<close>

record 'w frame =
  index :: int
  world :: 'w

text \<open>Code that cannot reach the cursor runs on the world of the frame.\<close>

definition on_world :: "('a, 'w) async \<Rightarrow> ('a, 'w frame) async" where
  "on_world f s = (case f (world s) of (result, w') \<Rightarrow> (result, s\<lparr>world := w'\<rparr>))"

text \<open>
  The interceptors receive the closure \<^verbatim>\<open>next\<close> as their \<^verbatim>\<open>HttpHandlerFn\<close>, declared
  \<^verbatim>\<open>(req: HttpRequest<unknown>) => ObservableLike<HttpEvent<unknown>>\<close>: a function of
  the request alone. What it returns at run time is the promise of \<^verbatim>\<open>next\<close>, a
  \<^verbatim>\<open>Promise<void>\<close>. A function entry returns what \<^verbatim>\<open>await interceptor(req, next)\<close>
  yields, which the handler passes to \<^verbatim>\<open>onEvent\<close>; an event entry gets the
  \<^verbatim>\<open>onEvent\<close> the handler holds, which may be \<^verbatim>\<open>undefined\<close>. An interceptor runs on
  the frame because it may call its continuation; the interceptors of the source have no
  other access to the cursor.
\<close>

type_synonym ('q, 'w) HttpHandlerFn2 = "'q \<Rightarrow> (unit, 'w frame) async"

datatype ('q, 'e, 'w) HttpInterceptorFn2 =
    ObservableInterceptorFn2 "'q \<Rightarrow> ('q, 'w) HttpHandlerFn2 \<Rightarrow> ('e, 'w frame) async"
  | EventInterceptor2
      "'q \<Rightarrow> ('q, 'w) HttpHandlerFn2 \<Rightarrow> ('e, 'w) callback option \<Rightarrow> (unit, 'w frame) async"

text \<open>
  The closure \<^verbatim>\<open>next\<close>. Every call increments the cursor, and only a call that finds the
  cursor below the entry count calls an interceptor, which may call \<^verbatim>\<open>next\<close> again: the
  first argument bounds how deep these calls nest, and \<open>NestingBound\<close> is the result of
  reaching the bound. An interceptor calls
  \<^verbatim>\<open>next(req)\<close> with the request alone, so the \<^verbatim>\<open>onEvent\<close> of that call is
  \<^verbatim>\<open>undefined\<close>. Reading the array at a negative index gives \<^verbatim>\<open>undefined\<close>, on which
  the \<^verbatim>\<open>in\<close> operator throws.
\<close>

primrec next_fn ::
  "nat \<Rightarrow> ('q, 'e, 'w) HttpInterceptorFn2 list \<Rightarrow> ('q, 'e, 'w) HttpBackend2
     \<Rightarrow> 'q \<Rightarrow> ('e, 'w) callback option \<Rightarrow> (unit, 'w frame) async" where
  "next_fn 0 dedupedFns backendHandle req onEvent =
     reject NestingBound"
| "next_fn (Suc depth) dedupedFns backendHandle req onEvent =
     (\<lambda>s.
        let s1 = s\<lparr>index := index s + 1\<rparr>
        in if index s1 < int (length dedupedFns) then
             (if index s1 < 0 then
                reject (TypeError ''cannot use the in operator on undefined'') s1
              else
                (case dedupedFns ! nat (index s1) of
                   ObservableInterceptorFn2 interceptor \<Rightarrow>
                     await (interceptor req (\<lambda>r. next_fn depth dedupedFns backendHandle r None))
                       (\<lambda>response. on_world (call onEvent response)) s1
                 | EventInterceptor2 eventInterceptor \<Rightarrow>
                     eventInterceptor req (\<lambda>r. next_fn depth dedupedFns backendHandle r None)
                       onEvent s1))
           else on_world (backendHandle req onEvent) s1)"

text \<open>
  The fields of the single-shot class, and \<open>handle\<close>. The list is read and de-duplicated
  in every call; calls of \<^verbatim>\<open>next\<close> nest at most one deeper than the list is long.
\<close>

record ('q, 'e, 'w) HttpInterceptorHandler2 =
  injector2 :: EnvironmentInjector
  backend2 :: "('q, 'e, 'w) HttpBackend2"

definition handle2 ::
  "(ref \<Rightarrow> ('q, 'e, 'w) HttpInterceptorFn2) \<Rightarrow> ('q, 'e, 'w) HttpInterceptorHandler2 \<Rightarrow> 'q
     \<Rightarrow> ('e, 'w) callback \<Rightarrow> (unit, 'w) async" where
  "handle2 heap this request onEvent w =
     (let dedupedFns = map heap (dedupedInterceptorFns (injector2 this));
          (result, s) = next_fn (Suc (length dedupedFns)) dedupedFns (backend2 this) request
                          (Some (\<lambda>event. onEvent event)) \<lparr>index = - 1, world = w\<rparr>
      in (result, world s))"

section \<open>\<^verbatim>\<open>Http.request\<close> (\<^verbatim>\<open>http/src/http.ts\<close>)\<close>

text \<open>
  A promise is pending, fulfilled or rejected, and only a pending promise can be settled.
  \<^verbatim>\<open>new Promise(executor)\<close> runs the executor with the \<^verbatim>\<open>resolve\<close> function of the new
  promise and rejects the promise if the executor throws.
\<close>

datatype 'a Promise = Pending | Fulfilled 'a | Rejected js_error

definition Promise_resolve :: "'a \<Rightarrow> 'a Promise \<Rightarrow> 'a Promise" where
  "Promise_resolve v promise = (case promise of Pending \<Rightarrow> Fulfilled v | _ \<Rightarrow> promise)"

definition Promise_reject :: "js_error \<Rightarrow> 'a Promise \<Rightarrow> 'a Promise" where
  "Promise_reject err promise = (case promise of Pending \<Rightarrow> Rejected err | _ \<Rightarrow> promise)"

definition new_Promise ::
  "(('a, 'a Promise) callback \<Rightarrow> (unit, 'a Promise) async) \<Rightarrow> 'a Promise" where
  "new_Promise executor =
     (case executor (\<lambda>v promise. (Inr (), Promise_resolve v promise)) Pending of
        (Inl err, promise) \<Rightarrow> Promise_reject err promise
      | (Inr _, promise) \<Rightarrow> promise)"

text \<open>
  The last statement of \<^verbatim>\<open>Http.request\<close>, for a request \<open>req\<close> already built:
  \<^verbatim>\<open>return new Promise((resolve) => { this.backend.handle(req, (event) => { resolve(event); }); })\<close>.
  If \<open>handle\<close> throws, the executor throws. If it returns its promise, the executor drops
  the promise and returns nothing: the work the promise stands for still goes on (its
  calls of \<^verbatim>\<open>onEvent\<close> reach \<^verbatim>\<open>resolve\<close>), but nobody sees how it settles.
\<close>

definition Http_request :: "('q, 'e, 'e Promise) HttpBackend2_handle \<Rightarrow> 'q \<Rightarrow> 'e Promise" where
  "Http_request backendHandle req =
     new_Promise (\<lambda>resolveFn promise.
        (case backendHandle req (Some (\<lambda>event. resolveFn event)) promise of
           (Inl err, promise') \<Rightarrow> (Inl err, promise')
         | (Inr completion, promise') \<Rightarrow> (Inr (), snd (completion promise'))))"

section \<open>Interceptors that the statements are about\<close>

text \<open>
  An entry that calls its continuation unconditionally, once: it hands the continuation
  the request changed by \<open>f\<close>. A function entry (\<open>Passing\<close>) returns the downstream stream
  changed by \<open>g\<close>; a callback entry (\<open>Relaying\<close>) calls \<^verbatim>\<open>onEvent\<close> for each of the events
  \<open>h\<close> makes of the downstream stream.
\<close>

datatype ('q, 'b, 's) stage =
    Passing "'q \<Rightarrow> 'q" "('b HttpEvent, 's) Observable \<Rightarrow> ('b HttpEvent, 's) Observable"
  | Relaying "'q \<Rightarrow> 'q" "('b HttpEvent, 's) Observable \<Rightarrow> 'b HttpEvent list"

fun entry_of :: "('q, 'b, 's) stage \<Rightarrow> ('q, 'b, 's) HttpInterceptorFn" where
  "entry_of (Passing f g) = ObservableInterceptorFn (\<lambda>req next. g (next (f req)))"
| "entry_of (Relaying f h) =
     EventInterceptor (\<lambda>req next onEvent. fold onEvent (h (next (f req))))"

fun on_request :: "('q, 'b, 's) stage \<Rightarrow> 'q \<Rightarrow> 'q" where
  "on_request (Passing f g) = f"
| "on_request (Relaying f h) = f"

text \<open>
  What the caller of a callback entry sees of the events passed to \<^verbatim>\<open>onEvent\<close>: the
  events up to the first \<^verbatim>\<open>HttpResponse\<close>, which completes the stream.
\<close>

definition relayed :: "'b HttpEvent list \<Rightarrow> ('b HttpEvent, 's) Observable" where
  "relayed events =
     \<lparr>emitted = takeWhile (\<lambda>e. \<not> instanceof_HttpResponse e) events
                 @ take 1 (dropWhile (\<lambda>e. \<not> instanceof_HttpResponse e) events),
      ending = (if dropWhile (\<lambda>e. \<not> instanceof_HttpResponse e) events = [] then Unterminated
                else Completed),
      finalizers = []\<rparr>"

fun on_response ::
  "('q, 'b, 's) stage \<Rightarrow> ('b HttpEvent, 's) Observable \<Rightarrow> ('b HttpEvent, 's) Observable" where
  "on_response (Passing f g) = g"
| "on_response (Relaying f h) = (\<lambda>downstream. relayed (h downstream))"

text \<open>
  A function entry of the single-shot handler that calls its continuation once, with the
  request changed by \<open>f\<close>, waits for it and returns the event \<open>e req\<close>.
\<close>

definition delegating :: "('q \<Rightarrow> 'q) \<times> ('q \<Rightarrow> 'e) \<Rightarrow> ('q, 'e, 'w) HttpInterceptorFn2" where
  "delegating d =
     ObservableInterceptorFn2
       (\<lambda>req next. await (next (fst d req)) (\<lambda>_. resolve (snd d req)))"

text \<open>
  A function entry of the stream handler that appends its number to the request on the
  way in and to the body of every response on the way out.
\<close>

definition tagging :: "nat \<Rightarrow> (nat list, nat list, 's) stage" where
  "tagging n =
     Passing (\<lambda>r. r @ [n])
       (\<lambda>downstream. downstream\<lparr>emitted :=
          map (\<lambda>e. case e of HttpResponse body \<Rightarrow> HttpResponse (body @ [n]) | _ \<Rightarrow> e)
            (emitted downstream)\<rparr>)"

text \<open>
  Entries of the single-shot handler: one that calls its continuation twice, as a retry
  does, and then returns \<open>e\<close>; an event entry that appends \<open>n\<close> to the request and returns
  what its continuation returns; one that returns \<open>e\<close> without calling its continuation;
  and one that calls its continuation once and returns, as a user event, the error the
  continuation rejected with (\<open>None\<close> when it resolved).
\<close>

definition retrying :: "'e \<Rightarrow> ('q, 'e, 'w) HttpInterceptorFn2" where
  "retrying e =
     ObservableInterceptorFn2
       (\<lambda>req next. await (next req) (\<lambda>_. await (next req) (\<lambda>_. resolve e)))"

definition appending :: "nat \<Rightarrow> (nat list, 'e, 'w) HttpInterceptorFn2" where
  "appending n = EventInterceptor2 (\<lambda>req next onEvent. next (req @ [n]))"

definition answering :: "'e \<Rightarrow> ('q, 'e, 'w) HttpInterceptorFn2" where
  "answering e = ObservableInterceptorFn2 (\<lambda>req next. resolve e)"

definition observing :: "('q, js_error option HttpEvent, 'w) HttpInterceptorFn2" where
  "observing =
     ObservableInterceptorFn2
       (\<lambda>req next s. case next req s of
           (Inl err, s') \<Rightarrow> (Inr (HttpUserEvent (Some err)), s')
         | (Inr u, s') \<Rightarrow> (Inr (HttpUserEvent None), s'))"

text \<open>
  Backends: one that records the requests it receives and reports nothing; and one that
  reports the events \<open>events req\<close> through \<^verbatim>\<open>onEvent\<close>, in order, and then settles its
  completion, rejecting it when \<open>failure req\<close> is an error. A caller's callback that
  collects the events it is given.
\<close>

definition recording :: "('q, 'e, 'q list) HttpBackend2" where
  "recording req onEvent w = (Inr (), w @ [req])"

primrec deliver :: "('e, 'w) callback option \<Rightarrow> 'e list \<Rightarrow> (unit, 'w) async" where
  "deliver onEvent [] = resolve ()"
| "deliver onEvent (event # events) = await (call onEvent event) (\<lambda>_. deliver onEvent events)"


definition collect :: "('e, 'e list) callback" where
  "collect event w = (Inr (), w @ [event])"

text \<open>
  An event entry that reports \<^verbatim>\<open>Sent\<close> and does not call its continuation; a backend
  that reports one response; a caller's callback that does nothing; and the heap in which
  every reference holds the same object.
\<close>

definition announcing :: "('q, 'b HttpEvent, 'w) HttpInterceptorFn2" where
  "announcing = EventInterceptor2 (\<lambda>req next onEvent. on_world (call onEvent HttpSentEvent))"

definition responding :: "('q, unit HttpEvent, 'w) HttpBackend2" where
  "responding req onEvent = call onEvent (HttpResponse ())"

definition ignoring :: "('e, 'w) callback" where
  "ignoring event = resolve ()"

definition every :: "'a \<Rightarrow> ref \<Rightarrow> 'a" where
  "every object r = object"

text \<open>
  What one call of a backend's \<open>handle\<close> does when its callback does not throw: it
  reports some events and throws; or it reports some events, returns its promise, reports
  more events later and then settles the promise, rejecting it when there is an error.
\<close>

datatype 'e conduct =
    Throwing "'e list" js_error
  | Returning "'e list" "'e list" "js_error option"

definition behaving :: "('q \<Rightarrow> 'e conduct) \<Rightarrow> ('q, 'e, 'w) HttpBackend2_handle" where
  "behaving conduct req onEvent =
     (case conduct req of
        Throwing before err \<Rightarrow> await (deliver onEvent before) (\<lambda>_. reject err)
      | Returning before later failure \<Rightarrow>
          await (deliver onEvent before)
            (\<lambda>_. resolve (await (deliver onEvent later)
                            (\<lambda>_. case failure of None \<Rightarrow> resolve () | Some err \<Rightarrow> reject err))))"

text \<open>
  A backend whose \<open>handle\<close> throws at once; a \<^verbatim>\<open>doRequest\<close> that ends as \<open>outcome\<close> says,
  touching nothing else; the outcome of a fetch that succeeds with a given response; and a
  backend of the stream handler whose stream is one response and then completes.
\<close>

definition throwing :: "js_error \<Rightarrow> ('q, 'e, 'w) HttpBackend2_handle" where
  "throwing err req onEvent = reject err"

definition fetching :: "('q \<Rightarrow> js_error + 'e) \<Rightarrow> 'q \<Rightarrow> ('e, 'w) async" where
  "fetching outcome req = (case outcome req of Inl err \<Rightarrow> reject err | Inr response \<Rightarrow> resolve response)"


definition completing :: "'b \<Rightarrow> ('b HttpEvent, 's) Observable" where
  "completing body = \<lparr>emitted = [HttpResponse body], ending = Completed, finalizers = []\<rparr>"

text \<open>The heap in which the references 1, 2, ... hold the objects of a list, in order.\<close>

definition heap_of :: "'a list \<Rightarrow> ref \<Rightarrow> 'a" where
  "heap_of objects r = objects ! (r - 1)"

section \<open>De-duplication keeps the first registration of every entry\<close>

lemma new_Set_snoc: "new_Set (xs @ [x]) = Set_add (new_Set xs) x"
  by (simp add: new_Set_def)

lemma new_Set_Nil: "new_Set [] = []"
  by (simp add: new_Set_def)

lemma set_new_Set: "set (new_Set xs) = set xs"
  by (induction xs rule: rev_induct) (auto simp: new_Set_snoc new_Set_Nil Set_add_def)

lemma distinct_new_Set: "distinct (new_Set xs)"
  by (induction xs rule: rev_induct) (auto simp: new_Set_snoc new_Set_Nil Set_add_def)

lemma takeWhile_new_Set:
  "takeWhile (\<lambda>x. x \<noteq> e) (new_Set xs) = new_Set (takeWhile (\<lambda>x. x \<noteq> e) xs)"
proof (induction xs rule: rev_induct)
  case Nil
  show ?case by (simp add: new_Set_Nil)
next
  case (snoc x xs)
  show ?case
  proof (cases "e \<in> set xs")
    case True
    then have "e \<in> set (new_Set xs)" by (simp add: set_new_Set)
    then have "takeWhile (\<lambda>x. x \<noteq> e) (Set_add (new_Set xs) x)
                 = takeWhile (\<lambda>x. x \<noteq> e) (new_Set xs)"
      by (simp add: Set_add_def takeWhile_append1)
    moreover from True have "takeWhile (\<lambda>x. x \<noteq> e) (xs @ [x]) = takeWhile (\<lambda>x. x \<noteq> e) xs"
      by (simp add: takeWhile_append1)
    ultimately show ?thesis using snoc.IH by (simp add: new_Set_snoc)
  next
    case False
    then have all: "\<forall>y\<in>set (new_Set xs). y \<noteq> e" by (auto simp: set_new_Set)
    from False have allxs: "\<forall>y\<in>set xs. y \<noteq> e" by auto
    show ?thesis
    proof (cases "x = e")
      case True
      have "takeWhile (\<lambda>x. x \<noteq> e) (new_Set xs @ [e]) = new_Set xs"
        using all by (simp add: takeWhile_append2)
      moreover have "takeWhile (\<lambda>x. x \<noteq> e) (xs @ [e]) = xs"
        using allxs by (simp add: takeWhile_append2)
      ultimately show ?thesis
        using True False by (simp add: new_Set_snoc Set_add_def set_new_Set)
    next
      case neq: False
      have "\<forall>y\<in>set (Set_add (new_Set xs) x). y \<noteq> e"
        using all neq by (auto simp: Set_add_def)
      then have "takeWhile (\<lambda>x. x \<noteq> e) (Set_add (new_Set xs) x) = Set_add (new_Set xs) x"
        by (simp add: takeWhile_eq_all_conv)
      moreover have "takeWhile (\<lambda>x. x \<noteq> e) (xs @ [x]) = xs @ [x]"
        using allxs neq by (simp add: takeWhile_eq_all_conv)
      ultimately show ?thesis by (simp add: new_Set_snoc)
    qed
  qed
qed

lemma count_list_distinct: "distinct xs \<Longrightarrow> x \<in> set xs \<Longrightarrow> count_list xs x = 1"
  by (induction xs) auto

text \<open>
  Claim C4. The list both handlers fold is the merged registration list (the module-local
  entries followed by the root-level ones) with every entry kept once: it has no
  duplicates, it has exactly the entries of the two sources, and the entries standing
  before any entry \<open>e\<close> are the de-duplicated entries registered before the first
  registration of \<open>e\<close> (first-seen order). An entry registered in both sources occurs
  exactly once, at the position of its first registration in the module-local list.
\<close>

theorem dedupedInterceptorFns_first_seen:
  fixes env :: EnvironmentInjector
  defines "local \<equiv> HTTP_INTERCEPTOR_FNS env"
    and "root \<equiv> get_or_default (HTTP_ROOT_INTERCEPTOR_FNS env) []"
  shows "distinct (dedupedInterceptorFns env)
       \<and> set (dedupedInterceptorFns env) = set local \<union> set root
       \<and> takeWhile (\<lambda>x. x \<noteq> e) (dedupedInterceptorFns env)
           = Array_from (new_Set (takeWhile (\<lambda>x. x \<noteq> e) (local @ root)))
       \<and> (e \<in> set local \<and> e \<in> set root \<longrightarrow>
           count_list (dedupedInterceptorFns env) e = 1
           \<and> takeWhile (\<lambda>x. x \<noteq> e) (dedupedInterceptorFns env)
               = Array_from (new_Set (takeWhile (\<lambda>x. x \<noteq> e) local)))"
proof -
  have d: "distinct (dedupedInterceptorFns env)"
    by (simp add: dedupedInterceptorFns_def Array_from_def distinct_new_Set)
  have s: "set (dedupedInterceptorFns env) = set local \<union> set root"
    by (simp add: dedupedInterceptorFns_def Array_from_def set_new_Set local_def root_def)
  have t: "takeWhile (\<lambda>x. x \<noteq> e) (dedupedInterceptorFns env)
           = Array_from (new_Set (takeWhile (\<lambda>x. x \<noteq> e) (local @ root)))"
    by (simp only: dedupedInterceptorFns_def Array_from_def takeWhile_new_Set local_def root_def)
  have "count_list (dedupedInterceptorFns env) e = 1
           \<and> takeWhile (\<lambda>x. x \<noteq> e) (dedupedInterceptorFns env)
               = Array_from (new_Set (takeWhile (\<lambda>x. x \<noteq> e) local))"
    if "e \<in> set local" "e \<in> set root"
  proof -
    from that have "takeWhile (\<lambda>x. x \<noteq> e) (local @ root) = takeWhile (\<lambda>x. x \<noteq> e) local"
      by (simp add: takeWhile_append1)
    with t d s that show ?thesis by (simp add: count_list_distinct)
  qed
  with d s t show ?thesis by blast
qed

text \<open>
  The same entry (reference 7) registered in both sources, after 3 in the module-local
  list: one occurrence, in second position.
\<close>

theorem dedupedInterceptorFns_first_seen_witness:
  "dedupedInterceptorFns \<lparr>HTTP_INTERCEPTOR_FNS = [3, 7, 3], HTTP_ROOT_INTERCEPTOR_FNS = Some [7, 5],
       REQUESTS_CONTRIBUTE_TO_STABILITY = True\<rparr> = [3, 7, 5]
   \<and> count_list (dedupedInterceptorFns \<lparr>HTTP_INTERCEPTOR_FNS = [3, 7, 3],
       HTTP_ROOT_INTERCEPTOR_FNS = Some [7, 5], REQUESTS_CONTRIBUTE_TO_STABILITY = True\<rparr>) 7 = 1
   \<and> takeWhile (\<lambda>x. x \<noteq> 7) (dedupedInterceptorFns \<lparr>HTTP_INTERCEPTOR_FNS = [3, 7, 3],
       HTTP_ROOT_INTERCEPTOR_FNS = Some [7, 5], REQUESTS_CONTRIBUTE_TO_STABILITY = True\<rparr>) = [3]"
  using dedupedInterceptorFns_first_seen
    [of "\<lparr>HTTP_INTERCEPTOR_FNS = [3, 7, 3], HTTP_ROOT_INTERCEPTOR_FNS = Some [7, 5],
          REQUESTS_CONTRIBUTE_TO_STABILITY = True\<rparr>" 7]
  by (simp add: dedupedInterceptorFns_def Array_from_def new_Set_def Set_add_def
      get_or_default_def)

section \<open>The stream handler runs its entries left to right\<close>

lemma reduceRight_Nil: "reduceRight f z [] = z"
  by (simp add: reduceRight_def)

lemma reduceRight_Cons: "reduceRight f z (x # xs) = f (reduceRight f z xs) x"
  by (simp add: reduceRight_def)

lemma interceptorChain_Nil: "interceptorChain env [] = interceptorChainEndFn"
  by (simp add: interceptorChain_def reduceRight_Nil)

lemma interceptorChain_Cons:
  "interceptorChain env (fn # fns)
     = chainedInterceptorFn (interceptorChain env fns) fn env"
  by (simp add: interceptorChain_def reduceRight_Cons)

lemma emit_closed: "closed subscriber \<Longrightarrow> emit event subscriber = subscriber"
  by (simp add: emit_def Subscriber_next_def Subscriber_complete_def Let_def)

lemma emit_open:
  "emit event \<lparr>received = r, closed = False\<rparr>
     = \<lparr>received = r @ [event], closed = instanceof_HttpResponse event\<rparr>"
  by (simp add: emit_def Subscriber_next_def Subscriber_complete_def Let_def)

lemma fold_emit_closed:
  "closed subscriber \<Longrightarrow> fold emit events subscriber = subscriber"
  by (induction events) (simp_all add: emit_closed)

lemma fold_emit_open:
  "fold emit events \<lparr>received = r, closed = False\<rparr>
     = \<lparr>received = r @ takeWhile (\<lambda>e. \<not> instanceof_HttpResponse e) events
                      @ take 1 (dropWhile (\<lambda>e. \<not> instanceof_HttpResponse e) events),
        closed = (dropWhile (\<lambda>e. \<not> instanceof_HttpResponse e) events \<noteq> [])\<rparr>"
proof (induction events arbitrary: r)
  case Nil
  show ?case by simp
next
  case (Cons e events)
  show ?case
  proof (cases "instanceof_HttpResponse e")
    case True
    then show ?thesis
      by (simp add: emit_open fold_emit_closed)
  next
    case False
    then show ?thesis
      using Cons.IH [of "r @ [e]"]
      by (simp add: emit_open)
  qed
qed

lemma new_Observable_fold_emit: "new_Observable (fold emit events) = relayed events"
  by (simp add: new_Observable_def relayed_def fold_emit_open)

lemma chainedInterceptorFn_entry_of:
  "chainedInterceptorFn chainTailFn (entry_of st) env req finalHandlerFn
     = on_response st (chainTailFn (on_request st req) finalHandlerFn)"
  by (cases st) (simp_all add: runInInjectionContext_def new_Observable_fold_emit)

lemma interceptorChain_stages:
  "interceptorChain env (map entry_of stages) req finalHandlerFn
     = foldr on_response stages (finalHandlerFn (fold on_request stages req))"
proof (induction stages arbitrary: req)
  case Nil
  show ?case by (simp add: interceptorChain_Nil interceptorChainEndFn_def)
next
  case (Cons st stages)
  show ?case
    by (simp only: list.map interceptorChain_Cons chainedInterceptorFn_entry_of Cons.IH
        foldr.simps fold.simps o_apply)
qed

lemma handle_stream:
  "fst (handle heap this req pendingTasks)
     = (let composed = (case chain this of
                          None \<Rightarrow> interceptorChain (injector this)
                                    (map heap (dedupedInterceptorFns (injector this)))
                        | Some cached \<Rightarrow> cached);
            stream = composed req (backend this)
        in if contributeToStability this
           then finalize (PendingTasks_remove (next_token pendingTasks)) stream else stream)"
  by (simp add: handle_def Let_def PendingTasks_add_def split: option.splits)

lemma handle_this:
  "fst (snd (handle heap this req pendingTasks))
     = (case chain this of
          None \<Rightarrow> this\<lparr>chain := Some (interceptorChain (injector this)
                                (map heap (dedupedInterceptorFns (injector this))))\<rparr>
        | Some cached \<Rightarrow> this)"
  by (simp add: handle_def Let_def PendingTasks_add_def split: option.splits prod.splits)

lemma handle_registry:
  "snd (snd (handle heap this req pendingTasks))
     = (if contributeToStability this then snd (PendingTasks_add pendingTasks) else pendingTasks)"
  by (simp add: handle_def Let_def split: option.splits prod.splits)

lemma emitted_finalize: "emitted (finalize callback source) = emitted source"
  by (simp add: finalize_def)

lemma ending_finalize: "ending (finalize callback source) = ending source"
  by (simp add: finalize_def)

text \<open>
  Claim C1. For entries \<open>[a, b, c]\<close> that all call their continuation unconditionally, the
  terminal handler receives the request as changed by \<open>a\<close>, then \<open>b\<close>, then \<open>c\<close>, and the
  stream it answers with passes back through \<open>c\<close>, then \<open>b\<close>, then \<open>a\<close> before it reaches the
  caller: the right-to-left fold puts entry 0 outermost. The same holds for a list of any
  length, and for the stream that \<open>handle\<close> returns when it builds its chain from three
  such registered entries.
\<close>

theorem interceptors_run_in_order:
  "interceptorChain env (map entry_of [a, b, c]) req terminal
     = on_response a (on_response b (on_response c
         (terminal (on_request c (on_request b (on_request a req))))))
   \<and> interceptorChain env (map entry_of stages) req terminal
       = foldr on_response stages (terminal (fold on_request stages req))
   \<and> (chain this = None
        \<and> map heap (dedupedInterceptorFns (injector this)) = map entry_of [a, b, c]
        \<longrightarrow> emitted (fst (handle heap this req pendingTasks))
              = emitted (on_response a (on_response b (on_response c
                  (backend this (on_request c (on_request b (on_request a req)))))))
          \<and> ending (fst (handle heap this req pendingTasks))
              = ending (on_response a (on_response b (on_response c
                  (backend this (on_request c (on_request b (on_request a req))))))))"
proof -
  have general: "interceptorChain env (map entry_of stages) req terminal
       = foldr on_response stages (terminal (fold on_request stages req))" for env stages terminal
    by (rule interceptorChain_stages)
  have three: "interceptorChain env (map entry_of [a, b, c]) req terminal
     = on_response a (on_response b (on_response c
         (terminal (on_request c (on_request b (on_request a req))))))" for env terminal
    using general [of env "[a, b, c]" terminal] by simp
  have "emitted (fst (handle heap this req pendingTasks))
              = emitted (on_response a (on_response b (on_response c
                  (backend this (on_request c (on_request b (on_request a req)))))))
          \<and> ending (fst (handle heap this req pendingTasks))
              = ending (on_response a (on_response b (on_response c
                  (backend this (on_request c (on_request b (on_request a req)))))))"
    if "chain this = None"
      "map heap (dedupedInterceptorFns (injector this)) = map entry_of [a, b, c]"
    using that three [of "injector this" "backend this"]
    by (simp add: handle_stream Let_def emitted_finalize ending_finalize)
  with general three show ?thesis by blast
qed

text \<open>
  Entries 1, 2 and 3 (2 registered twice) in front of a backend that answers with the
  request it received: the backend saw \<open>[1, 2, 3]\<close>, and the response reaches the caller
  after passing 3, then 2, then 1.
\<close>

theorem interceptors_run_in_order_witness:
  "chain (new_HttpInterceptorHandler
            (\<lambda>r. \<lparr>emitted = [HttpSentEvent, HttpResponse r], ending = Completed, finalizers = []\<rparr>)
            \<lparr>HTTP_INTERCEPTOR_FNS = [1, 2], HTTP_ROOT_INTERCEPTOR_FNS = Some [2, 3],
               REQUESTS_CONTRIBUTE_TO_STABILITY = True\<rparr>) = None
   \<and> emitted (fst (handle (\<lambda>r. entry_of (tagging r))
        (new_HttpInterceptorHandler
           (\<lambda>r. \<lparr>emitted = [HttpSentEvent, HttpResponse r], ending = Completed, finalizers = []\<rparr>)
           \<lparr>HTTP_INTERCEPTOR_FNS = [1, 2], HTTP_ROOT_INTERCEPTOR_FNS = Some [2, 3],
              REQUESTS_CONTRIBUTE_TO_STABILITY = True\<rparr>)
        [] \<lparr>next_token = 0, history = []\<rparr>))
     = [HttpSentEvent, HttpResponse [1, 2, 3, 3, 2, 1]]"
  using interceptors_run_in_order [where a = "tagging 1" and b = "tagging 2" and c = "tagging 3"
      and req = "[]" and heap = "\<lambda>r. entry_of (tagging r)"
      and pendingTasks = "\<lparr>next_token = 0, history = []\<rparr>"
      and this = "new_HttpInterceptorHandler
           (\<lambda>r. \<lparr>emitted = [HttpSentEvent, HttpResponse r], ending = Completed, finalizers = []\<rparr>)
           \<lparr>HTTP_INTERCEPTOR_FNS = [1, 2], HTTP_ROOT_INTERCEPTOR_FNS = Some [2, 3],
              REQUESTS_CONTRIBUTE_TO_STABILITY = True\<rparr>"]
  by (simp add: new_HttpInterceptorHandler_def dedupedInterceptorFns_def Array_from_def
      new_Set_def Set_add_def get_or_default_def tagging_def)

text \<open>
  Claim C8. A chain of one callback entry that emits \<^verbatim>\<open>Sent\<close> and then forwards every
  event of its continuation, in front of a transport that answers with one response,
  gives the caller exactly \<open>[Sent, Response]\<close> and then completes. In general the stream
  of a callback entry carries every event the entry passes to \<^verbatim>\<open>onEvent\<close>, in order, up
  to and including the first \<^verbatim>\<open>HttpResponse\<close>, whose receipt completes the stream; with
  no response among them the stream stays open.
\<close>

theorem callback_entry_sent_then_response:
  "emitted (interceptorChain env
              [EventInterceptor (\<lambda>req next onEvent. fold onEvent (HttpSentEvent # emitted (next req)))]
              req (\<lambda>r. \<lparr>emitted = [HttpResponse body], ending = Completed, finalizers = []\<rparr>))
     = [HttpSentEvent, HttpResponse body]
   \<and> ending (interceptorChain env
              [EventInterceptor (\<lambda>req next onEvent. fold onEvent (HttpSentEvent # emitted (next req)))]
              req (\<lambda>r. \<lparr>emitted = [HttpResponse body], ending = Completed, finalizers = []\<rparr>))
     = Completed
   \<and> emitted (chainedInterceptorFn chainTailFn
                (EventInterceptor (\<lambda>req next onEvent. fold onEvent (produced req next)))
                env req finalHandlerFn)
     = takeWhile (\<lambda>e. \<not> instanceof_HttpResponse e)
         (produced req (\<lambda>downstreamRequest. chainTailFn downstreamRequest finalHandlerFn))
       @ take 1 (dropWhile (\<lambda>e. \<not> instanceof_HttpResponse e)
         (produced req (\<lambda>downstreamRequest. chainTailFn downstreamRequest finalHandlerFn)))
   \<and> ending (chainedInterceptorFn chainTailFn
                (EventInterceptor (\<lambda>req next onEvent. fold onEvent (produced req next)))
                env req finalHandlerFn)
     = (if list_ex instanceof_HttpResponse
             (produced req (\<lambda>downstreamRequest. chainTailFn downstreamRequest finalHandlerFn))
        then Completed else Unterminated)"
proof -
  have general: "chainedInterceptorFn chainTailFn
                (EventInterceptor (\<lambda>req next onEvent. fold onEvent (produced req next)))
                env req finalHandlerFn
      = relayed (produced req (\<lambda>downstreamRequest. chainTailFn downstreamRequest finalHandlerFn))"
    for produced chainTailFn req finalHandlerFn
    by (simp add: runInInjectionContext_def new_Observable_fold_emit)
  have scenario: "interceptorChain env
              [EventInterceptor (\<lambda>req next onEvent. fold onEvent (HttpSentEvent # emitted (next req)))]
              req (\<lambda>r. \<lparr>emitted = [HttpResponse body], ending = Completed, finalizers = []\<rparr>)
      = relayed [HttpSentEvent, HttpResponse body]"
    using general [of interceptorChainEndFn
        "\<lambda>req next. HttpSentEvent # emitted (next req)" req
        "\<lambda>r. \<lparr>emitted = [HttpResponse body], ending = Completed, finalizers = []\<rparr>"]
    by (simp only: interceptorChain_Cons interceptorChain_Nil)
       (simp add: interceptorChainEndFn_def)
  show ?thesis
    by (simp only: general scenario) (simp add: relayed_def list_ex_iff)
qed

text \<open>
  The stream handler, short circuit and repeated continuation. An entry that does not use
  its continuation cuts off the rest of the chain and the terminal handler: the chain is
  the first entry run on the short-circuiting entry's own stream. And the continuation
  handed to the entry at position \<open>i\<close> is the chain of the entries after \<open>i\<close>, a function:
  every call of it runs the same suffix.
\<close>

lemma stream_short_circuit:
  "interceptorChain env (a # ObservableInterceptorFn (\<lambda>req next. produced req) # rest)
       req finalHandlerFn
     = chainedInterceptorFn (\<lambda>downstreamRequest anything. produced downstreamRequest)
         a env req anything"
  by (cases a) (simp_all add: interceptorChain_Cons runInInjectionContext_def)

lemma stream_continuation_is_suffix:
  "i < length fns \<Longrightarrow>
   interceptorChain env (drop i fns)
     = chainedInterceptorFn (interceptorChain env (drop (Suc i) fns)) (fns ! i) env"
  by (simp add: interceptorChain_Cons flip: Cons_nth_drop_Suc)

section \<open>Caching of the composed chain\<close>

text \<open>
  Claim C2, as amended. A stream handler composes its chain at the first call of \<open>handle\<close>,
  from the registration lists as they are then, and keeps it: a handler that holds a
  chain \<open>built\<close> answers every later call with \<open>built\<close> applied to the request and its
  backend, and still holds \<open>built\<close> afterwards, whatever the registration lists (and the
  objects behind them) have become in between.
\<close>

theorem handle_builds_chain_once:
  "(chain this = None \<longrightarrow>
      chain (fst (snd (handle heap this req pendingTasks)))
        = Some (interceptorChain (injector this) (map heap (dedupedInterceptorFns (injector this)))))
   \<and> (chain this = Some built \<longrightarrow>
      chain (fst (snd (handle heap' (this\<lparr>injector := mutated\<rparr>) req' pendingTasks'))) = Some built
      \<and> emitted (fst (handle heap' (this\<lparr>injector := mutated\<rparr>) req' pendingTasks'))
          = emitted (built req' (backend this))
      \<and> ending (fst (handle heap' (this\<lparr>injector := mutated\<rparr>) req' pendingTasks'))
          = ending (built req' (backend this)))"
  by (simp add: handle_this handle_stream finalize_def Let_def)

text \<open>
  A handler with entry 1 registered answers a first call; then the registration list is
  replaced by \<open>[2, 3]\<close>; the second call still runs entry 1 alone.
\<close>

theorem handle_builds_chain_once_witness:
  "chain (new_HttpInterceptorHandler
            (\<lambda>r. \<lparr>emitted = [HttpResponse r], ending = Completed, finalizers = []\<rparr>)
            \<lparr>HTTP_INTERCEPTOR_FNS = [1], HTTP_ROOT_INTERCEPTOR_FNS = None,
               REQUESTS_CONTRIBUTE_TO_STABILITY = True\<rparr>) = None
   \<and> emitted (fst (handle (\<lambda>r. entry_of (tagging r))
        (fst (snd (handle (\<lambda>r. entry_of (tagging r))
           (new_HttpInterceptorHandler
              (\<lambda>r. \<lparr>emitted = [HttpResponse r], ending = Completed, finalizers = []\<rparr>)
              \<lparr>HTTP_INTERCEPTOR_FNS = [1], HTTP_ROOT_INTERCEPTOR_FNS = None,
                 REQUESTS_CONTRIBUTE_TO_STABILITY = True\<rparr>)
           [] \<lparr>next_token = 0, history = []\<rparr>))
         \<lparr>injector := \<lparr>HTTP_INTERCEPTOR_FNS = [2, 3], HTTP_ROOT_INTERCEPTOR_FNS = None,
                        REQUESTS_CONTRIBUTE_TO_STABILITY = True\<rparr>\<rparr>)
        [] \<lparr>next_token = 1, history = [Added 0]\<rparr>))
     = [HttpResponse [1, 1]]"
  using handle_builds_chain_once [where heap = "\<lambda>r. entry_of (tagging r)" and req = "[]"
      and pendingTasks = "\<lparr>next_token = 0, history = []\<rparr>"
      and this = "new_HttpInterceptorHandler
              (\<lambda>r. \<lparr>emitted = [HttpResponse r], ending = Completed, finalizers = []\<rparr>)
              \<lparr>HTTP_INTERCEPTOR_FNS = [1], HTTP_ROOT_INTERCEPTOR_FNS = None,
                 REQUESTS_CONTRIBUTE_TO_STABILITY = True\<rparr>"]
    handle_builds_chain_once [where heap' = "\<lambda>r. entry_of (tagging r)" and req' = "[]"
      and pendingTasks' = "\<lparr>next_token = 1, history = [Added 0]\<rparr>"
      and mutated = "\<lparr>HTTP_INTERCEPTOR_FNS = [2, 3], HTTP_ROOT_INTERCEPTOR_FNS = None,
                        REQUESTS_CONTRIBUTE_TO_STABILITY = True\<rparr>"
      and built = "interceptorChain \<lparr>HTTP_INTERCEPTOR_FNS = [1], HTTP_ROOT_INTERCEPTOR_FNS = None,
                 REQUESTS_CONTRIBUTE_TO_STABILITY = True\<rparr> [entry_of (tagging 1)]"
      and this = "fst (snd (handle (\<lambda>r. entry_of (tagging r))
           (new_HttpInterceptorHandler
              (\<lambda>r. \<lparr>emitted = [HttpResponse r], ending = Completed, finalizers = []\<rparr>)
              \<lparr>HTTP_INTERCEPTOR_FNS = [1], HTTP_ROOT_INTERCEPTOR_FNS = None,
                 REQUESTS_CONTRIBUTE_TO_STABILITY = True\<rparr>)
           [] \<lparr>next_token = 0, history = []\<rparr>))"]
  by (simp add: new_HttpInterceptorHandler_def dedupedInterceptorFns_def Array_from_def
      new_Set_def Set_add_def get_or_default_def tagging_def handle_this
      interceptorChain_Cons interceptorChain_Nil interceptorChainEndFn_def
      runInInjectionContext_def)

text \<open>
  The claim fails for the single-shot handler, which has no chain to cache: the same
  handler, called once with no entry registered and once after entry 1 was registered,
  runs entry 1 in the second call. (Entry 1 reports \<^verbatim>\<open>Sent\<close> and does not call its
  continuation; the backend reports a response.)
\<close>

theorem handle2_reads_registrations_anew:
  "handle2 (every announcing)
     \<lparr>injector2 = \<lparr>HTTP_INTERCEPTOR_FNS = [], HTTP_ROOT_INTERCEPTOR_FNS = None,
                    REQUESTS_CONTRIBUTE_TO_STABILITY = True\<rparr>,
      backend2 = responding\<rparr> () collect []
     = (Inr (), [HttpResponse ()])
   \<and> handle2 (every announcing)
     (\<lparr>injector2 = \<lparr>HTTP_INTERCEPTOR_FNS = [], HTTP_ROOT_INTERCEPTOR_FNS = None,
                    REQUESTS_CONTRIBUTE_TO_STABILITY = True\<rparr>,
      backend2 = responding\<rparr>
       \<lparr>injector2 := \<lparr>HTTP_INTERCEPTOR_FNS = [1], HTTP_ROOT_INTERCEPTOR_FNS = None,
                    REQUESTS_CONTRIBUTE_TO_STABILITY = True\<rparr>\<rparr>) () collect []
     = (Inr (), [HttpSentEvent])"
  by (simp add: handle2_def dedupedInterceptorFns_def Array_from_def new_Set_def Set_add_def
      get_or_default_def collect_def on_world_def call_def Let_def every_def announcing_def
      responding_def)

section \<open>Pending tasks\<close>

lemma subscribe_finalize:
  "subscribe (finalize callback source) consumer s
     = (fst (subscribe source consumer s),
        if snd (fst (subscribe source consumer s)) = StillOpen then s
        else callback (snd (subscribe source consumer s)))"
  by (cases consumer; cases "ending source")
     (simp_all add: subscribe_def finalize_def Let_def)

lemma subscribe_StillOpen:
  "snd (fst (subscribe source consumer s)) = StillOpen \<Longrightarrow> snd (subscribe source consumer s) = s"
  by (simp add: subscribe_def Let_def)

lemma subscribe_no_finalizers:
  "finalizers source = [] \<Longrightarrow> snd (subscribe source consumer s) = s"
  by (simp add: subscribe_def Let_def)

lemma subscribe_outcome_any_state:
  "fst (subscribe source consumer s) = fst (subscribe source consumer s')"
  by (simp add: subscribe_def Let_def)

text \<open>
  Claim C3, as amended. In the stream handler with the stability flag on, every call of
  \<open>handle\<close> makes exactly one call \<^verbatim>\<open>add()\<close> to the registry (in the call itself, so
  before anything subscribes to the stream), and every subscription to the stream it
  returns delivers what the chain's stream delivers and, when it ends (by completion, by
  an error or by the consumer unsubscribing), makes exactly one call \<^verbatim>\<open>remove\<close> with that
  token, after whatever the chain's own stream does to the registry; while the
  subscription is open the token stays. So when the stream is subscribed exactly once,
  and nothing in the chain calls the registry, the call of \<open>handle\<close> and the subscription
  add to the history of the registry one \<^verbatim>\<open>add\<close> and, once the subscription has ended,
  one \<^verbatim>\<open>remove\<close> of the token and nothing else. With the flag off, \<open>handle\<close> leaves the
  registry alone and returns the chain's stream itself.
\<close>

theorem handle_pending_task:
  fixes this :: "('q, 'b) HttpInterceptorHandler"
    and heap :: "ref \<Rightarrow> ('q, 'b, PendingTasks) HttpInterceptorFn"
    and req :: 'q
  defines "stream \<equiv> (case chain this of
                         None \<Rightarrow> interceptorChain (injector this)
                                   (map heap (dedupedInterceptorFns (injector this)))
                       | Some cached \<Rightarrow> cached) req (backend this)"
  shows "(contributeToStability this \<longrightarrow>
            snd (snd (handle heap this req pendingTasks))
              = pendingTasks\<lparr>next_token := next_token pendingTasks + 1,
                              history := history pendingTasks @ [Added (next_token pendingTasks)]\<rparr>
            \<and> fst (subscribe (fst (handle heap this req pendingTasks)) consumer registry)
                = fst (subscribe stream consumer registry)
            \<and> history (snd (subscribe (fst (handle heap this req pendingTasks)) consumer registry))
                = history (snd (subscribe stream consumer registry))
                  @ (if snd (fst (subscribe stream consumer registry)) = StillOpen then []
                     else [Removed (next_token pendingTasks)]))
       \<and> (contributeToStability this \<and> finalizers stream = [] \<longrightarrow>
            history (snd (subscribe (fst (handle heap this req pendingTasks)) consumer
                           (snd (snd (handle heap this req pendingTasks)))))
              = history pendingTasks @ [Added (next_token pendingTasks)]
                @ (if snd (fst (subscribe (fst (handle heap this req pendingTasks)) consumer
                                  (snd (snd (handle heap this req pendingTasks))))) = StillOpen
                   then [] else [Removed (next_token pendingTasks)]))
       \<and> (\<not> contributeToStability this \<longrightarrow>
            snd (snd (handle heap this req pendingTasks)) = pendingTasks
            \<and> fst (handle heap this req pendingTasks) = stream)"
proof -
  have obs: "fst (handle heap this req pendingTasks)
      = (if contributeToStability this
         then finalize (PendingTasks_remove (next_token pendingTasks)) stream else stream)"
    by (simp add: handle_stream stream_def Let_def)
  have reg: "snd (snd (handle heap this req pendingTasks))
      = (if contributeToStability this
         then pendingTasks\<lparr>next_token := next_token pendingTasks + 1,
                history := history pendingTasks @ [Added (next_token pendingTasks)]\<rparr>
         else pendingTasks)"
    by (simp add: handle_registry PendingTasks_add_def)
  have each: "contributeToStability this \<longrightarrow>
            snd (snd (handle heap this req pendingTasks))
              = pendingTasks\<lparr>next_token := next_token pendingTasks + 1,
                              history := history pendingTasks @ [Added (next_token pendingTasks)]\<rparr>
            \<and> fst (subscribe (fst (handle heap this req pendingTasks)) consumer registry)
                = fst (subscribe stream consumer registry)
            \<and> history (snd (subscribe (fst (handle heap this req pendingTasks)) consumer registry))
                = history (snd (subscribe stream consumer registry))
                  @ (if snd (fst (subscribe stream consumer registry)) = StillOpen then []
                     else [Removed (next_token pendingTasks)])" for registry
    by (simp add: obs reg subscribe_finalize PendingTasks_remove_def subscribe_StillOpen)
  have once: "contributeToStability this \<and> finalizers stream = [] \<longrightarrow>
            history (snd (subscribe (fst (handle heap this req pendingTasks)) consumer
                           (snd (snd (handle heap this req pendingTasks)))))
              = history pendingTasks @ [Added (next_token pendingTasks)]
                @ (if snd (fst (subscribe (fst (handle heap this req pendingTasks)) consumer
                                  (snd (snd (handle heap this req pendingTasks))))) = StillOpen
                   then [] else [Removed (next_token pendingTasks)])"
    by (simp add: obs reg subscribe_finalize PendingTasks_remove_def subscribe_no_finalizers)
  have off: "\<not> contributeToStability this \<longrightarrow>
            snd (snd (handle heap this req pendingTasks)) = pendingTasks
            \<and> fst (handle heap this req pendingTasks) = stream"
    by (simp add: obs reg)
  show ?thesis
    by (rule conjI [OF each conjI [OF once off]])
qed

text \<open>
  A handler with the flag on and no entries. The history of the registry after \<open>handle\<close>
  and one subscription is one \<^verbatim>\<open>add\<close> and one \<^verbatim>\<open>remove\<close> when the backend's stream
  completes, when it fails, and when the consumer unsubscribes from a stream that stays
  silent; it is the \<^verbatim>\<open>add\<close> alone while the consumer stays on that stream. With the
  flag off the registry is left as it was.
\<close>

theorem handle_pending_task_witness:
  "contributeToStability (new_HttpInterceptorHandler
       (\<lambda>r. \<lparr>emitted = [HttpResponse r], ending = r, finalizers = []\<rparr>)
       \<lparr>HTTP_INTERCEPTOR_FNS = [], HTTP_ROOT_INTERCEPTOR_FNS = None,
          REQUESTS_CONTRIBUTE_TO_STABILITY = True\<rparr>)
   \<and> history (snd (subscribe
          (fst (handle (\<lambda>r. ObservableInterceptorFn (\<lambda>req next. next req))
             (new_HttpInterceptorHandler
                (\<lambda>r. \<lparr>emitted = [HttpResponse r], ending = r, finalizers = []\<rparr>)
                \<lparr>HTTP_INTERCEPTOR_FNS = [], HTTP_ROOT_INTERCEPTOR_FNS = None,
                   REQUESTS_CONTRIBUTE_TO_STABILITY = True\<rparr>)
             Completed \<lparr>next_token = 0, history = []\<rparr>))
          None \<lparr>next_token = 1, history = [Added 0]\<rparr>)) = [Added 0, Removed 0]
   \<and> history (snd (subscribe
          (fst (handle (\<lambda>r. ObservableInterceptorFn (\<lambda>req next. next req))
             (new_HttpInterceptorHandler
                (\<lambda>r. \<lparr>emitted = [HttpResponse r], ending = r, finalizers = []\<rparr>)
                \<lparr>HTTP_INTERCEPTOR_FNS = [], HTTP_ROOT_INTERCEPTOR_FNS = None,
                   REQUESTS_CONTRIBUTE_TO_STABILITY = True\<rparr>)
             (Errored (HttpErrorResponse 500)) \<lparr>next_token = 0, history = []\<rparr>))
          None \<lparr>next_token = 1, history = [Added 0]\<rparr>)) = [Added 0, Removed 0]
   \<and> history (snd (subscribe
          (fst (handle (\<lambda>r. ObservableInterceptorFn (\<lambda>req next. next req))
             (new_HttpInterceptorHandler
                (\<lambda>r. \<lparr>emitted = [HttpResponse r], ending = r, finalizers = []\<rparr>)
                \<lparr>HTTP_INTERCEPTOR_FNS = [], HTTP_ROOT_INTERCEPTOR_FNS = None,
                   REQUESTS_CONTRIBUTE_TO_STABILITY = True\<rparr>)
             Unterminated \<lparr>next_token = 0, history = []\<rparr>))
          (Some 0) \<lparr>next_token = 1, history = [Added 0]\<rparr>)) = [Added 0, Removed 0]
   \<and> history (snd (subscribe
          (fst (handle (\<lambda>r. ObservableInterceptorFn (\<lambda>req next. next req))
             (new_HttpInterceptorHandler
                (\<lambda>r. \<lparr>emitted = [HttpResponse r], ending = r, finalizers = []\<rparr>)
                \<lparr>HTTP_INTERCEPTOR_FNS = [], HTTP_ROOT_INTERCEPTOR_FNS = None,
                   REQUESTS_CONTRIBUTE_TO_STABILITY = True\<rparr>)
             Unterminated \<lparr>next_token = 0, history = []\<rparr>))
          None \<lparr>next_token = 1, history = [Added 0]\<rparr>)) = [Added 0]
   \<and> snd (snd (handle (\<lambda>r. ObservableInterceptorFn (\<lambda>req next. next req))
             (new_HttpInterceptorHandler
                (\<lambda>r. \<lparr>emitted = [HttpResponse r], ending = r, finalizers = []\<rparr>)
                \<lparr>HTTP_INTERCEPTOR_FNS = [], HTTP_ROOT_INTERCEPTOR_FNS = None,
                   REQUESTS_CONTRIBUTE_TO_STABILITY = False\<rparr>)
             Completed \<lparr>next_token = 0, history = []\<rparr>)) = \<lparr>next_token = 0, history = []\<rparr>"
  using handle_pending_task [where heap = "\<lambda>r. ObservableInterceptorFn (\<lambda>req next. next req)"
      and this = "new_HttpInterceptorHandler
                (\<lambda>r. \<lparr>emitted = [HttpResponse r], ending = r, finalizers = []\<rparr>)
                \<lparr>HTTP_INTERCEPTOR_FNS = [], HTTP_ROOT_INTERCEPTOR_FNS = None,
                   REQUESTS_CONTRIBUTE_TO_STABILITY = False\<rparr>"
      and pendingTasks = "\<lparr>next_token = 0, history = []\<rparr>" and req = Completed]
    handle_pending_task [where heap = "\<lambda>r. ObservableInterceptorFn (\<lambda>req next. next req)"
      and this = "new_HttpInterceptorHandler
                (\<lambda>r. \<lparr>emitted = [HttpResponse r], ending = r, finalizers = []\<rparr>)
                \<lparr>HTTP_INTERCEPTOR_FNS = [], HTTP_ROOT_INTERCEPTOR_FNS = None,
                   REQUESTS_CONTRIBUTE_TO_STABILITY = True\<rparr>"
      and pendingTasks = "\<lparr>next_token = 0, history = []\<rparr>"
      and registry = "\<lparr>next_token = 1, history = [Added 0]\<rparr>"
      and req = "Completed" and consumer = "None"]
    handle_pending_task [where heap = "\<lambda>r. ObservableInterceptorFn (\<lambda>req next. next req)"
      and this = "new_HttpInterceptorHandler
                (\<lambda>r. \<lparr>emitted = [HttpResponse r], ending = r, finalizers = []\<rparr>)
                \<lparr>HTTP_INTERCEPTOR_FNS = [], HTTP_ROOT_INTERCEPTOR_FNS = None,
                   REQUESTS_CONTRIBUTE_TO_STABILITY = True\<rparr>"
      and pendingTasks = "\<lparr>next_token = 0, history = []\<rparr>"
      and registry = "\<lparr>next_token = 1, history = [Added 0]\<rparr>"
      and req = "Errored (HttpErrorResponse 500)" and consumer = "None"]
    handle_pending_task [where heap = "\<lambda>r. ObservableInterceptorFn (\<lambda>req next. next req)"
      and this = "new_HttpInterceptorHandler
                (\<lambda>r. \<lparr>emitted = [HttpResponse r], ending = r, finalizers = []\<rparr>)
                \<lparr>HTTP_INTERCEPTOR_FNS = [], HTTP_ROOT_INTERCEPTOR_FNS = None,
                   REQUESTS_CONTRIBUTE_TO_STABILITY = True\<rparr>"
      and pendingTasks = "\<lparr>next_token = 0, history = []\<rparr>"
      and registry = "\<lparr>next_token = 1, history = [Added 0]\<rparr>"
      and req = "Unterminated" and consumer = "Some 0"]
    handle_pending_task [where heap = "\<lambda>r. ObservableInterceptorFn (\<lambda>req next. next req)"
      and this = "new_HttpInterceptorHandler
                (\<lambda>r. \<lparr>emitted = [HttpResponse r], ending = r, finalizers = []\<rparr>)
                \<lparr>HTTP_INTERCEPTOR_FNS = [], HTTP_ROOT_INTERCEPTOR_FNS = None,
                   REQUESTS_CONTRIBUTE_TO_STABILITY = True\<rparr>"
      and pendingTasks = "\<lparr>next_token = 0, history = []\<rparr>"
      and registry = "\<lparr>next_token = 1, history = [Added 0]\<rparr>"
      and req = "Unterminated" and consumer = "None"]
  by (simp add: new_HttpInterceptorHandler_def dedupedInterceptorFns_def Array_from_def
      new_Set_def get_or_default_def interceptorChain_Nil interceptorChainEndFn_def
      handle_stream finalize_def PendingTasks_remove_def subscribe_def Let_def)

text \<open>
  The claim as it was stated fails in three ways. The single-shot handler never touches a
  registry: with the flag on, a call of its \<open>handle\<close> that runs to the end leaves an empty
  registry empty. In the stream handler the token is taken by the call of \<open>handle\<close> and
  given back by the subscriptions: after a call and no subscription the token is still
  held, and after a call and two subscriptions that both complete it has been given back
  twice.
\<close>

theorem pending_task_not_exactly_once:
  "handle2 (every announcing)
     \<lparr>injector2 = \<lparr>HTTP_INTERCEPTOR_FNS = [], HTTP_ROOT_INTERCEPTOR_FNS = None,
                    REQUESTS_CONTRIBUTE_TO_STABILITY = True\<rparr>,
      backend2 = responding\<rparr> () ignoring \<lparr>next_token = 0, history = []\<rparr>
     = (Inr (), \<lparr>next_token = 0, history = []\<rparr>)
   \<and> snd (snd (handle (every (entry_of (tagging 1)))
        (new_HttpInterceptorHandler completing
           \<lparr>HTTP_INTERCEPTOR_FNS = [], HTTP_ROOT_INTERCEPTOR_FNS = None,
              REQUESTS_CONTRIBUTE_TO_STABILITY = True\<rparr>)
        [] \<lparr>next_token = 0, history = []\<rparr>))
     = \<lparr>next_token = 1, history = [Added 0]\<rparr>
   \<and> history (snd (subscribe
        (fst (handle (every (entry_of (tagging 1)))
           (new_HttpInterceptorHandler completing
              \<lparr>HTTP_INTERCEPTOR_FNS = [], HTTP_ROOT_INTERCEPTOR_FNS = None,
                 REQUESTS_CONTRIBUTE_TO_STABILITY = True\<rparr>)
           [] \<lparr>next_token = 0, history = []\<rparr>))
        None
        (snd (subscribe
           (fst (handle (every (entry_of (tagging 1)))
              (new_HttpInterceptorHandler completing
                 \<lparr>HTTP_INTERCEPTOR_FNS = [], HTTP_ROOT_INTERCEPTOR_FNS = None,
                    REQUESTS_CONTRIBUTE_TO_STABILITY = True\<rparr>)
              [] \<lparr>next_token = 0, history = []\<rparr>))
           None \<lparr>next_token = 1, history = [Added 0]\<rparr>))))
     = [Added 0, Removed 0, Removed 0]"
  by (simp add: handle2_def dedupedInterceptorFns_def Array_from_def new_Set_def Set_add_def
      get_or_default_def resolve_def on_world_def call_def Let_def responding_def ignoring_def
      new_HttpInterceptorHandler_def interceptorChain_Nil interceptorChainEndFn_def
      handle_stream handle_registry PendingTasks_add_def finalize_def PendingTasks_remove_def
      subscribe_def completing_def)

section \<open>The single-shot handler: the cursor\<close>

lemma next_fn_backend:
  "int (length fns) \<le> index s + 1 \<Longrightarrow>
   next_fn (Suc depth) fns be req cb s = on_world (be req cb) (s\<lparr>index := index s + 1\<rparr>)"
  by (simp add: Let_def)

lemma next_fn_function_entry:
  "0 \<le> index s + 1 \<Longrightarrow> index s + 1 < int (length fns) \<Longrightarrow>
   fns ! nat (index s + 1) = ObservableInterceptorFn2 interceptor \<Longrightarrow>
   next_fn (Suc depth) fns be req cb s
     = await (interceptor req (\<lambda>r. next_fn depth fns be r None))
         (\<lambda>response. on_world (call cb response)) (s\<lparr>index := index s + 1\<rparr>)"
  by (simp add: Let_def)

text \<open>
  Entries that each call their continuation once: the calls of \<^verbatim>\<open>next\<close> nest as deep as
  there are entries left, and any bound above that gives the same result. \<open>pre\<close> are the
  entries that have been dispatched already.
\<close>

lemma next_fn_delegating:
  assumes "fns = pre @ map delegating ds"
    and "index s = int (length pre) - 1"
    and "length ds < depth"
  shows "next_fn depth fns be req cb s
     = (case on_world (be (fold fst ds req) (if ds = [] then cb else None))
               (s\<lparr>index := int (length pre) + int (length ds)\<rparr>) of
          (Inl err, s') \<Rightarrow> (Inl err, s')
        | (Inr u, s') \<Rightarrow>
            (case ds of
               [] \<Rightarrow> (Inr u, s')
             | [d] \<Rightarrow> on_world (call cb (snd d req)) s'
             | _ \<Rightarrow> (Inl (TypeError ''onEvent is not a function''), s')))"
  using assms
proof (induction ds arbitrary: pre depth req cb s)
  case Nil
  then obtain k where k: "depth = Suc k" by (cases depth) auto
  from Nil have "int (length fns) \<le> index s + 1" by simp
  then have "next_fn depth fns be req cb s = on_world (be req cb) (s\<lparr>index := index s + 1\<rparr>)"
    unfolding k by (rule next_fn_backend)
  with Nil show ?case by (simp split: prod.splits sum.splits)
next
  case (Cons d ds)
  then obtain k where k: "depth = Suc k" and kd: "length ds < k" by (cases depth) auto
  let ?s1 = "s\<lparr>index := index s + 1\<rparr>"
  have fns: "fns = (pre @ [delegating d]) @ map delegating ds" using Cons.prems by simp
  have at: "fns ! nat (index s + 1) = delegating d" using Cons.prems by (simp add: nth_append)
  have step: "next_fn depth fns be req cb s
     = await (await (next_fn k fns be (fst d req) None) (\<lambda>_. resolve (snd d req)))
         (\<lambda>response. on_world (call cb response)) ?s1"
    unfolding k using at Cons.prems
    by (subst next_fn_function_entry [where interceptor =
        "\<lambda>req next. await (next (fst d req)) (\<lambda>_. resolve (snd d req))"])
      (simp_all add: delegating_def)
  have inner: "next_fn k fns be (fst d req) None ?s1
     = (case on_world (be (fold fst ds (fst d req)) None)
               (?s1\<lparr>index := int (length (pre @ [delegating d])) + int (length ds)\<rparr>) of
          (Inl err, s') \<Rightarrow> (Inl err, s')
        | (Inr u, s') \<Rightarrow>
            (case ds of
               [] \<Rightarrow> (Inr u, s')
             | [d'] \<Rightarrow> on_world (call None (snd d' (fst d req))) s'
             | _ \<Rightarrow> (Inl (TypeError ''onEvent is not a function''), s')))"
    using Cons.IH [OF fns _ kd, of ?s1 "fst d req" None] Cons.prems by simp
  show ?case
    unfolding step
    by (simp add: await_def inner resolve_def call_def reject_def on_world_def
        split: prod.splits sum.splits list.splits)
qed

lemma handle2_delegating:
  assumes "map heap (dedupedInterceptorFns (injector2 this)) = map delegating ds"
  shows "handle2 heap this request onEvent w
     = (case backend2 this (fold fst ds request) (if ds = [] then Some onEvent else None) w of
          (Inl err, w') \<Rightarrow> (Inl err, w')
        | (Inr u, w') \<Rightarrow>
            (case ds of
               [] \<Rightarrow> (Inr u, w')
             | [d] \<Rightarrow> onEvent (snd d request) w'
             | _ \<Rightarrow> (Inl (TypeError ''onEvent is not a function''), w')))"
proof -
  have "next_fn (Suc (length ds)) (map delegating ds) (backend2 this) request
          (Some onEvent) \<lparr>index = - 1, world = w\<rparr>
     = (case on_world (backend2 this (fold fst ds request) (if ds = [] then Some onEvent else None))
               (\<lparr>index = - 1, world = w\<rparr>\<lparr>index := int (length ([] :: ('a, 'b, 'c) HttpInterceptorFn2 list)) + int (length ds)\<rparr>) of
          (Inl err, s') \<Rightarrow> (Inl err, s')
        | (Inr u, s') \<Rightarrow>
            (case ds of
               [] \<Rightarrow> (Inr u, s')
             | [d] \<Rightarrow> on_world (call (Some onEvent) (snd d request)) s'
             | _ \<Rightarrow> (Inl (TypeError ''onEvent is not a function''), s')))"
    by (rule next_fn_delegating) simp_all
  then show ?thesis
    using assms
    by (simp add: handle2_def Let_def on_world_def call_def del: next_fn.simps
        split: prod.splits sum.splits list.splits)
qed

text \<open>
  Claim C6. The closure \<^verbatim>\<open>next\<close> increments the cursor and then dispatches on it: below
  the entry count it calls the entry at the cursor, handing it \<^verbatim>\<open>next\<close> as continuation;
  at the entry count (or beyond) it calls the backend with the request it was given. The
  cursor starts at \<open>-1\<close>, so for entries that each call their continuation once, waiting
  for it, the entries run one after the other in list order, each on the request the
  previous one passed on, and the backend is called with the last request when the cursor
  equals the entry count. (What happens after the backend has answered is the subject of
  claim C9.)
\<close>

theorem handle2_index_cursor:
  "(0 \<le> index s + 1 \<and> index s + 1 < int (length fns) \<longrightarrow>
      next_fn (Suc depth) fns be req cb s
        = (case fns ! nat (index s + 1) of
             ObservableInterceptorFn2 interceptor \<Rightarrow>
               await (interceptor req (\<lambda>r. next_fn depth fns be r None))
                 (\<lambda>response. on_world (call cb response))
           | EventInterceptor2 eventInterceptor \<Rightarrow>
               eventInterceptor req (\<lambda>r. next_fn depth fns be r None) cb)
          (s\<lparr>index := index s + 1\<rparr>))
   \<and> (int (length fns) \<le> index s + 1 \<longrightarrow>
      next_fn (Suc depth) fns be req cb s = on_world (be req cb) (s\<lparr>index := index s + 1\<rparr>))
   \<and> next_fn (Suc (length ds)) (map delegating ds) be request cb \<lparr>index = - 1, world = w\<rparr>
       = (case on_world (be (fold fst ds request) (if ds = [] then cb else None))
                 \<lparr>index = int (length ds), world = w\<rparr> of
            (Inl err, s') \<Rightarrow> (Inl err, s')
          | (Inr u, s') \<Rightarrow>
              (case ds of
                 [] \<Rightarrow> (Inr u, s')
               | [d] \<Rightarrow> on_world (call cb (snd d request)) s'
               | _ \<Rightarrow> (Inl (TypeError ''onEvent is not a function''), s')))
   \<and> (map heap (dedupedInterceptorFns (injector2 this)) = map delegating ds \<longrightarrow>
      handle2 heap this request onEvent w
        = (case backend2 this (fold fst ds request) (if ds = [] then Some onEvent else None) w of
             (Inl err, w') \<Rightarrow> (Inl err, w')
           | (Inr u, w') \<Rightarrow>
               (case ds of
                  [] \<Rightarrow> (Inr u, w')
                | [d] \<Rightarrow> onEvent (snd d request) w'
                | _ \<Rightarrow> (Inl (TypeError ''onEvent is not a function''), w'))))"
proof -
  have entry: "next_fn (Suc depth) fns be req cb s
        = (case fns ! nat (index s + 1) of
             ObservableInterceptorFn2 interceptor \<Rightarrow>
               await (interceptor req (\<lambda>r. next_fn depth fns be r None))
                 (\<lambda>response. on_world (call cb response))
           | EventInterceptor2 eventInterceptor \<Rightarrow>
               eventInterceptor req (\<lambda>r. next_fn depth fns be r None) cb)
          (s\<lparr>index := index s + 1\<rparr>)"
    if "0 \<le> index s + 1" "index s + 1 < int (length fns)"
    using that by (simp add: Let_def split: HttpInterceptorFn2.splits)
  have backend: "next_fn (Suc depth) fns be req cb s = on_world (be req cb) (s\<lparr>index := index s + 1\<rparr>)"
    if "int (length fns) \<le> index s + 1"
    using that by (rule next_fn_backend)
  have run: "next_fn (Suc (length ds)) (map delegating ds) be request cb \<lparr>index = - 1, world = w\<rparr>
       = (case on_world (be (fold fst ds request) (if ds = [] then cb else None))
                 \<lparr>index = int (length ds), world = w\<rparr> of
            (Inl err, s') \<Rightarrow> (Inl err, s')
          | (Inr u, s') \<Rightarrow>
              (case ds of
                 [] \<Rightarrow> (Inr u, s')
               | [d] \<Rightarrow> on_world (call cb (snd d request)) s'
               | _ \<Rightarrow> (Inl (TypeError ''onEvent is not a function''), s')))"
    using next_fn_delegating [of "map delegating ds" "[]" ds "\<lparr>index = - 1, world = w\<rparr>"
        "Suc (length ds)" be request cb]
    by simp
  show ?thesis
    using entry backend run handle2_delegating [of heap this ds request onEvent w] by blast
qed

text \<open>
  Entries 1, 2, 3 (2 registered twice), each appending its number to the request, in
  front of the recording backend: the backend was called once, with \<open>[1, 2, 3]\<close>. One
  step of \<^verbatim>\<open>next\<close> with the cursor below the entry count, and one with the cursor at it.
\<close>

theorem handle2_index_cursor_witness:
  "map (\<lambda>r. delegating (\<lambda>q. q @ [r], \<lambda>q. HttpSentEvent :: unit HttpEvent))
       (dedupedInterceptorFns \<lparr>HTTP_INTERCEPTOR_FNS = [1, 2], HTTP_ROOT_INTERCEPTOR_FNS = Some [2, 3],
          REQUESTS_CONTRIBUTE_TO_STABILITY = True\<rparr>)
     = map delegating [(\<lambda>q. q @ [1], \<lambda>q. HttpSentEvent :: unit HttpEvent), (\<lambda>q. q @ [2], \<lambda>q. HttpSentEvent :: unit HttpEvent),
                       (\<lambda>q. q @ [3], \<lambda>q. HttpSentEvent :: unit HttpEvent)]
   \<and> handle2 (\<lambda>r. delegating (\<lambda>q. q @ [r], \<lambda>q. HttpSentEvent :: unit HttpEvent))
       \<lparr>injector2 = \<lparr>HTTP_INTERCEPTOR_FNS = [1, 2], HTTP_ROOT_INTERCEPTOR_FNS = Some [2, 3],
          REQUESTS_CONTRIBUTE_TO_STABILITY = True\<rparr>, backend2 = recording\<rparr>
       [] (\<lambda>event. resolve ()) []
     = (Inl (TypeError ''onEvent is not a function''), [[1, 2, 3]])
   \<and> next_fn (Suc (Suc 0))
         [appending 2 :: (nat list, unit HttpEvent, nat list list) HttpInterceptorFn2]
         recording [] None \<lparr>index = - 1, world = []\<rparr>
     = (Inr (), \<lparr>index = 1, world = [[2]]\<rparr>)
   \<and> next_fn (Suc 0) ([] :: (nat list, unit HttpEvent, nat list list) HttpInterceptorFn2 list)
         recording [5] None \<lparr>index = - 1, world = []\<rparr>
     = (Inr (), \<lparr>index = 0, world = [[5]]\<rparr>)"
proof -
  have entry: "next_fn (Suc (Suc 0))
         [appending 2 :: (nat list, unit HttpEvent, nat list list) HttpInterceptorFn2]
         recording [] None \<lparr>index = - 1, world = []\<rparr>
     = (Inr (), \<lparr>index = 1, world = [[2]]\<rparr>)"
    using handle2_index_cursor [where fns = "[appending 2]" and be = recording
        and s = "\<lparr>index = - 1, world = []\<rparr>" and depth = "Suc 0" and req = "[]" and cb = None,
        THEN conjunct1]
    by (simp add: appending_def recording_def on_world_def)
  have backend: "next_fn (Suc 0) ([] :: (nat list, unit HttpEvent, nat list list) HttpInterceptorFn2 list)
         recording [5] None \<lparr>index = - 1, world = []\<rparr>
     = (Inr (), \<lparr>index = 0, world = [[5]]\<rparr>)"
    using handle2_index_cursor [where fns = "[]" and be = recording
        and s = "\<lparr>index = - 1, world = []\<rparr>" and depth = 0 and req = "[5]" and cb = None,
        THEN conjunct2, THEN conjunct1]
    by (simp add: recording_def on_world_def)
  have lists: "map (\<lambda>r. delegating (\<lambda>q. q @ [r], \<lambda>q. HttpSentEvent :: unit HttpEvent))
       (dedupedInterceptorFns (injector2
          \<lparr>injector2 = \<lparr>HTTP_INTERCEPTOR_FNS = [1, 2], HTTP_ROOT_INTERCEPTOR_FNS = Some [2, 3],
             REQUESTS_CONTRIBUTE_TO_STABILITY = True\<rparr>, backend2 = recording\<rparr>))
     = map delegating [(\<lambda>q. q @ [1], \<lambda>q. HttpSentEvent :: unit HttpEvent), (\<lambda>q. q @ [2], \<lambda>q. HttpSentEvent :: unit HttpEvent),
                       (\<lambda>q. q @ [3], \<lambda>q. HttpSentEvent :: unit HttpEvent)]"
    by (simp add: dedupedInterceptorFns_def Array_from_def new_Set_def Set_add_def
        get_or_default_def)
  have run: "handle2 (\<lambda>r. delegating (\<lambda>q. q @ [r], \<lambda>q. HttpSentEvent :: unit HttpEvent))
       \<lparr>injector2 = \<lparr>HTTP_INTERCEPTOR_FNS = [1, 2], HTTP_ROOT_INTERCEPTOR_FNS = Some [2, 3],
          REQUESTS_CONTRIBUTE_TO_STABILITY = True\<rparr>, backend2 = recording\<rparr>
       [] (\<lambda>event. resolve ()) []
     = (Inl (TypeError ''onEvent is not a function''), [[1, 2, 3]])"
    using handle2_index_cursor [where ds =
      "[(\<lambda>q. q @ [1], \<lambda>q. HttpSentEvent :: unit HttpEvent), (\<lambda>q. q @ [2], \<lambda>q. HttpSentEvent :: unit HttpEvent),
        (\<lambda>q. q @ [3], \<lambda>q. HttpSentEvent :: unit HttpEvent)]"
      and heap = "\<lambda>r. delegating (\<lambda>q. q @ [r], \<lambda>q. HttpSentEvent :: unit HttpEvent)"
      and this = "\<lparr>injector2 = \<lparr>HTTP_INTERCEPTOR_FNS = [1, 2], HTTP_ROOT_INTERCEPTOR_FNS = Some [2, 3],
          REQUESTS_CONTRIBUTE_TO_STABILITY = True\<rparr>, backend2 = recording\<rparr>"
      and request = "[]" and onEvent = "\<lambda>event. resolve ()" and w = "[]",
      THEN conjunct2, THEN conjunct2, THEN conjunct2, THEN mp, OF lists]
    by (simp add: recording_def)
  from lists run entry backend show ?thesis by simp
qed

section \<open>The single-shot handler: continuations carry no callback\<close>






section \<open>The single-shot handler: one cursor for all continuations\<close>

text \<open>
  Claim C5 at a failing input. The single-shot handler with entries \<open>[1, 2]\<close>, where
  entry 1 calls its continuation twice and entry 2 appends \<open>2\<close> to the request, in front
  of the recording backend, called with the request \<open>[]\<close>: the first call of the
  continuation runs entry 2 and reaches the backend with \<open>[2]\<close>; the second call finds
  the cursor past the entries and reaches the backend directly, with \<open>[]\<close>. Running the
  same suffix twice would have recorded \<open>[[2], [2]]\<close>.
\<close>

theorem handle2_second_continuation_skips_entries:
  "handle2 (heap_of [retrying HttpSentEvent, appending 2])
     \<lparr>injector2 = \<lparr>HTTP_INTERCEPTOR_FNS = [1, 2], HTTP_ROOT_INTERCEPTOR_FNS = None,
                    REQUESTS_CONTRIBUTE_TO_STABILITY = True\<rparr>,
      backend2 = recording\<rparr> [] ignoring []
   = (Inr (), [[2], []])"
  by (simp add: handle2_def dedupedInterceptorFns_def Array_from_def new_Set_def Set_add_def
      get_or_default_def retrying_def appending_def recording_def await_def resolve_def
      on_world_def call_def Let_def heap_of_def ignoring_def)

text \<open>
  Claim C7 at a failing input. The single-shot handler with entries \<open>[1, 2, 3]\<close>, where
  entry 1 reports what its continuation did and entry 2 answers with a response without
  calling its continuation, whatever entry 3 and the backend are: entry 3 and the backend
  are not run, but entry 1 does not receive the response of entry 2. Its continuation
  is rejected with a \<^verbatim>\<open>TypeError\<close>, because the handler passes the response of entry 2
  to a callback that entry 1 could not supply.
\<close>

theorem handle2_short_circuit_rejects:
  "handle2 (heap_of [observing, answering (HttpResponse None), c])
     \<lparr>injector2 = \<lparr>HTTP_INTERCEPTOR_FNS = [1, 2, 3], HTTP_ROOT_INTERCEPTOR_FNS = None,
                    REQUESTS_CONTRIBUTE_TO_STABILITY = True\<rparr>,
      backend2 = be\<rparr> req collect []
   = (Inr (), [HttpUserEvent (Some (TypeError ''onEvent is not a function''))])"
  by (simp add: handle2_def dedupedInterceptorFns_def Array_from_def new_Set_def Set_add_def
      get_or_default_def observing_def answering_def await_def resolve_def reject_def collect_def
      on_world_def call_def Let_def heap_of_def)

section \<open>\<^verbatim>\<open>Http.request\<close> resolves with the first event\<close>

lemma deliver_resolve:
  "deliver (Some (\<lambda>event promise. (Inr (), Promise_resolve event promise))) events promise
     = (Inr (), fold Promise_resolve events promise)"
  by (induction events arbitrary: promise) (simp_all add: resolve_def await_def call_def)

lemma fold_Promise_resolve_settled:
  "promise \<noteq> Pending \<Longrightarrow> fold Promise_resolve events promise = promise"
  by (induction events) (auto simp: Promise_resolve_def split: Promise.splits)

lemma fold_Promise_resolve_Pending:
  "fold Promise_resolve events Pending = (case events of [] \<Rightarrow> Pending | event # _ \<Rightarrow> Fulfilled event)"
  by (cases events) (simp_all add: Promise_resolve_def fold_Promise_resolve_settled)

lemma Http_request_unfold:
  "Http_request backendHandle req
     = (case backendHandle req (Some (\<lambda>event promise. (Inr (), Promise_resolve event promise))) Pending of
          (Inl err, promise) \<Rightarrow> Promise_reject err promise
        | (Inr completion, promise) \<Rightarrow> snd (completion promise))"
  by (simp add: Http_request_def new_Promise_def split: prod.splits sum.splits)

text \<open>
  Claim C10, as amended. The promise returned by \<^verbatim>\<open>Http.request\<close> is what the backend's
  calls of the callback have made of it, rejected only if \<open>handle\<close> throws while the promise
  is still pending; how the promise returned by \<open>handle\<close> settles is not looked at. So for a
  backend that reports through the callback alone: the promise is fulfilled with the
  first event reported, the later ones being dropped; it stays pending when no event is
  reported, also when the promise of \<open>handle\<close> is rejected; and it is rejected only when
  \<open>handle\<close> throws before it has reported an event. With the provided backend, whose
  \<open>handle\<close> is \<^verbatim>\<open>async\<close>, the promise is fulfilled with the response when the fetch
  succeeds and stays pending when it fails: it is never rejected.
\<close>

theorem Http_request_first_event:
  "Http_request backendHandle req
     = (case backendHandle req (Some (\<lambda>event promise. (Inr (), Promise_resolve event promise))) Pending of
          (Inl err, promise) \<Rightarrow> Promise_reject err promise
        | (Inr completion, promise) \<Rightarrow> snd (completion promise))
   \<and> Http_request (behaving conduct) req
     = (case conduct req of
          Throwing before err \<Rightarrow>
            (case before of [] \<Rightarrow> Rejected err | event # _ \<Rightarrow> Fulfilled event)
        | Returning before later failure \<Rightarrow>
            (case before @ later of [] \<Rightarrow> Pending | event # _ \<Rightarrow> Fulfilled event))
   \<and> Http_request (async_function (PromiseFetchBackend_handle (fetching outcome))) req
     = (case outcome req of Inl err \<Rightarrow> Pending | Inr response \<Rightarrow> Fulfilled response)"
proof -
  have conducted: "Http_request (behaving conduct) req
     = (case conduct req of
          Throwing before err \<Rightarrow>
            (case before of [] \<Rightarrow> Rejected err | event # _ \<Rightarrow> Fulfilled event)
        | Returning before later failure \<Rightarrow>
            (case before @ later of [] \<Rightarrow> Pending | event # _ \<Rightarrow> Fulfilled event))"
  proof (cases "conduct req")
    case (Throwing before err)
    have "behaving conduct req (Some (\<lambda>event promise. (Inr (), Promise_resolve event promise))) Pending
        = (Inl err, fold Promise_resolve before Pending)"
      by (simp add: behaving_def Throwing await_def deliver_resolve reject_def)
    then have "Http_request (behaving conduct) req
        = Promise_reject err (fold Promise_resolve before Pending)"
      by (simp add: Http_request_unfold)
    then show ?thesis
      by (simp add: Throwing fold_Promise_resolve_Pending Promise_reject_def split: list.splits)
  next
    case (Returning before later failure)
    have "behaving conduct req (Some (\<lambda>event promise. (Inr (), Promise_resolve event promise))) Pending
        = (Inr (await (deliver (Some (\<lambda>event promise. (Inr (), Promise_resolve event promise))) later)
                  (\<lambda>_. case failure of None \<Rightarrow> resolve () | Some err \<Rightarrow> reject err)),
           fold Promise_resolve before Pending)"
      by (simp add: behaving_def Returning await_def deliver_resolve resolve_def)
    then have "Http_request (behaving conduct) req
        = fold Promise_resolve later (fold Promise_resolve before Pending)"
      by (simp add: Http_request_unfold await_def deliver_resolve resolve_def reject_def
            split: option.splits)
    then have "Http_request (behaving conduct) req = fold Promise_resolve (before @ later) Pending"
      by simp
    then show ?thesis
      by (simp only: Returning fold_Promise_resolve_Pending conduct.case)
  qed
  have fetch: "Http_request (async_function (PromiseFetchBackend_handle (fetching outcome))) req
     = (case outcome req of Inl err \<Rightarrow> Pending | Inr response \<Rightarrow> Fulfilled response)"
    by (simp add: Http_request_unfold async_function_def PromiseFetchBackend_handle_def
          fetching_def await_def call_def resolve_def reject_def Promise_resolve_def
          split: sum.splits)
  show ?thesis
    using Http_request_unfold [of backendHandle req] conducted fetch by (intro conjI)
qed

text \<open>
  The claim as it was stated, that the promise never rejects, fails for a backend whose
  \<open>handle\<close> throws at once.
\<close>

theorem Http_request_rejects:
  "Http_request (throwing (Thrown ''boom'')) () = (Rejected (Thrown ''boom'') :: unit HttpEvent Promise)"
  by (simp add: Http_request_unfold throwing_def reject_def Promise_reject_def)


end
